theory Spec2Isabelle
  imports
    Main
    "HOL-Library.Word"
    "HOL-Library.Char_ord"
    "HOL-Library.List_Lexorder"
    "HOL-Library.Sublist"
    "HOL-Library.AList"
begin

section \<open>The file replica of litestream (replica.go)\<close>

text \<open>
  A shallow embedding of \<^verbatim>\<open>FileReplica\<close>: the file system the replica works on is an
  explicit state, every operating-system call returns an error value or a result, and
  the collaborators the file does not contain (the database adapter, gzip, the clock,
  the generation-name validator) are fields of an environment record.
\<close>

subsection \<open>Errors\<close>

text \<open>
  The error values of the file. \<open>ErrNotExist\<close> is every error for which
  \<^verbatim>\<open>os.IsNotExist\<close> holds (ENOENT, \<^verbatim>\<open>os.ErrNotExist\<close>); the other constructors
  named after an errno are the remaining logical failures of the system calls used.
  \<open>NoSnapshotsFound\<close> is \<^verbatim>\<open>fmt.Errorf("no snapshots found")\<close>, \<open>ErrNoSnapshots\<close> the
  package's sentinel, \<open>IndexNotFound maxIndex generation index\<close> the error of
  \<^verbatim>\<open>WALIndexAt\<close>, \<open>Wrapped msg e\<close> an error that wraps \<open>e\<close> with a message.
\<close>

datatype error =
    ErrNotExist
  | ENOTDIR
  | EISDIR
  | ENOTEMPTY
  | EINVAL
  | EIO
  | EOF
  | ErrGzipHeader
  | ErrTx
  | ErrDB
  | ErrNoSnapshots
  | NoSnapshotsFound
  | NoGeneration
  | IndexNotFound int string int
  | Wrapped string error

definition IsNotExist :: "error \<Rightarrow> bool" where
  "IsNotExist e = (e = ErrNotExist)"

subsection \<open>The file system\<close>

text \<open>
  A path is the list of its components (\<^verbatim>\<open>filepath.Join\<close> appends components; a
  generation name is taken to be one component). A file holds its bytes and its
  modification time; a directory holds the size and the modification time the system
  reports for it. Times are nanoseconds after the zero \<^verbatim>\<open>time.Time\<close>, which no file
  system precedes, so a stored time is a natural number and \<^verbatim>\<open>IsZero\<close> is \<open>t = 0\<close>.
  Modes and owners are not tracked, and the attributes of a directory are not changed
  when an entry is added to it or removed from it.

  The file system is an association list from paths to nodes, read through \<open>map_of\<close>;
  the root directory \<open>[]\<close> always exists.
\<close>

type_synonym byte = "8 word"
type_synonym path = "string list"

datatype node =
    File (contents: "byte list") (mtime: nat)
  | Dir (dsize: nat) (mtime: nat)

type_synonym fs = "(path \<times> node) list"

record FileInfo =
  Name :: string
  Size :: int
  ModTime :: int
  IsDir :: bool

fun node_size :: "node \<Rightarrow> int" where
  "node_size (File bs t) = int (length bs)"
| "node_size (Dir sz t) = int sz"

fun node_is_dir :: "node \<Rightarrow> bool" where
  "node_is_dir (File bs t) = False"
| "node_is_dir (Dir sz t) = True"

definition file_info :: "string \<Rightarrow> node \<Rightarrow> FileInfo" where
  "file_info n nd =
     \<lparr>Name = n, Size = node_size nd, ModTime = int (mtime nd), IsDir = node_is_dir nd\<rparr>"

text \<open>
  Path resolution, component by component from the directory \<open>d\<close>: a missing component
  is \<open>ErrNotExist\<close>, a regular file in the middle of the path is \<open>ENOTDIR\<close>.
\<close>

fun walk :: "fs \<Rightarrow> path \<Rightarrow> string list \<Rightarrow> error + node" where
  "walk fs d [] = Inr (Dir 0 0)"
| "walk fs d [c] =
     (case map_of fs (d @ [c]) of None \<Rightarrow> Inl ErrNotExist | Some nd \<Rightarrow> Inr nd)"
| "walk fs d (c # c' # cs) =
     (case map_of fs (d @ [c]) of
        None \<Rightarrow> Inl ErrNotExist
      | Some (File bs t) \<Rightarrow> Inl ENOTDIR
      | Some (Dir sz t) \<Rightarrow> walk fs (d @ [c]) (c' # cs))"

text \<open>\<^verbatim>\<open>os.Stat\<close>.\<close>

definition Stat :: "fs \<Rightarrow> path \<Rightarrow> error + node" where
  "Stat fs p = walk fs [] p"

text \<open>The names in directory \<open>d\<close>, sorted as \<^verbatim>\<open>ioutil.ReadDir\<close> sorts them.\<close>

definition child_names :: "fs \<Rightarrow> path \<Rightarrow> string list" where
  "child_names fs d =
     sort (remdups (map last (filter (\<lambda>q. q \<noteq> [] \<and> butlast q = d) (map fst fs))))"

definition entry :: "fs \<Rightarrow> path \<Rightarrow> string \<Rightarrow> FileInfo list" where
  "entry fs d n = (case map_of fs (d @ [n]) of None \<Rightarrow> [] | Some nd \<Rightarrow> [file_info n nd])"

text \<open>\<^verbatim>\<open>ioutil.ReadDir\<close>.\<close>

definition ReadDir :: "fs \<Rightarrow> path \<Rightarrow> error + FileInfo list" where
  "ReadDir fs d =
     (case Stat fs d of
        Inl e \<Rightarrow> Inl e
      | Inr (File bs t) \<Rightarrow> Inl ENOTDIR
      | Inr (Dir sz t) \<Rightarrow> Inr (concat (map (entry fs d) (child_names fs d))))"

text \<open>
  \<^verbatim>\<open>os.Open\<close> for reading: it succeeds on whatever \<^verbatim>\<open>os.Stat\<close> finds (a directory can
  be opened; reading from it fails).
\<close>

definition Open :: "fs \<Rightarrow> path \<Rightarrow> error + node" where
  "Open fs p = Stat fs p"

text \<open>
  Modelled from the spec: \<^verbatim>\<open>mkdirAll\<close> is not in replica.go; the spec says that
  directory creation is recursive. As \<^verbatim>\<open>os.MkdirAll\<close>: existing directories are kept,
  missing ones are created (at time \<open>t\<close>), a regular file on the way is \<open>ENOTDIR\<close>.
\<close>

fun mkdir_walk :: "fs \<Rightarrow> path \<Rightarrow> string list \<Rightarrow> nat \<Rightarrow> error + fs" where
  "mkdir_walk fs d [] t = Inr fs"
| "mkdir_walk fs d (c # cs) t =
     (case map_of fs (d @ [c]) of
        None \<Rightarrow> mkdir_walk (AList.update (d @ [c]) (Dir 0 t) fs) (d @ [c]) cs t
      | Some (File bs t') \<Rightarrow> Inl ENOTDIR
      | Some (Dir sz t') \<Rightarrow> mkdir_walk fs (d @ [c]) cs t)"

definition mkdirAll :: "fs \<Rightarrow> path \<Rightarrow> nat \<Rightarrow> error + fs" where
  "mkdirAll fs p t = mkdir_walk fs [] p t"

text \<open>
  Opening a file for writing with \<^verbatim>\<open>O_CREATE\<close>: the parent must be a directory and the
  path must not be one. With \<open>trunc\<close> (\<^verbatim>\<open>os.Create\<close>, which the missing \<^verbatim>\<open>createFile\<close>
  wraps) the file is emptied, without it (\<^verbatim>\<open>os.OpenFile(O_RDWR|O_CREATE)\<close>) an existing
  file keeps its bytes.
\<close>

definition open_create :: "bool \<Rightarrow> fs \<Rightarrow> path \<Rightarrow> nat \<Rightarrow> error + fs" where
  "open_create trunc fs p t =
     (if p = [] then Inl EISDIR
      else case Stat fs (butlast p) of
        Inl e \<Rightarrow> Inl e
      | Inr (File bs t') \<Rightarrow> Inl ENOTDIR
      | Inr (Dir sz t') \<Rightarrow>
          (case map_of fs p of
             None \<Rightarrow> Inr (AList.update p (File [] t) fs)
           | Some (Dir sz' t'') \<Rightarrow> Inl EISDIR
           | Some (File bs t'') \<Rightarrow>
               Inr (if trunc then AList.update p (File [] t) fs else fs)))"

text \<open>\<^verbatim>\<open>os.Remove\<close>: a file, or a directory that has no entry.\<close>

definition Remove :: "fs \<Rightarrow> path \<Rightarrow> error + fs" where
  "Remove fs p =
     (if p = [] then Inl EINVAL
      else case Stat fs p of
        Inl e \<Rightarrow> Inl e
      | Inr (File bs t) \<Rightarrow> Inr (AList.delete p fs)
      | Inr (Dir sz t) \<Rightarrow>
          (if child_names fs p = [] then Inr (AList.delete p fs) else Inl ENOTEMPTY))"

text \<open>
  \<^verbatim>\<open>os.RemoveAll\<close>: the path and everything below it; a path that does not exist is
  not an error.
\<close>

definition RemoveAll :: "fs \<Rightarrow> path \<Rightarrow> error + fs" where
  "RemoveAll fs p =
     (if p = [] then Inl EINVAL
      else case Stat fs p of
        Inl e \<Rightarrow> (if IsNotExist e then Inr fs else Inl e)
      | Inr nd \<Rightarrow> Inr (filter (\<lambda>(q, nd'). \<not> prefix p q) fs))"

text \<open>
  \<^verbatim>\<open>os.Rename\<close> of a regular file: it replaces a file at the new path and fails on a
  directory there. The only rename of replica.go is the one of \<^verbatim>\<open>compressFile\<close>, whose
  source is the temporary file it has just written; renaming a directory is outside
  the model and reported as \<open>EINVAL\<close>.
\<close>

definition Rename :: "fs \<Rightarrow> path \<Rightarrow> path \<Rightarrow> error + fs" where
  "Rename fs src dst =
     (case Stat fs src of
        Inl e \<Rightarrow> Inl e
      | Inr (Dir sz t) \<Rightarrow> Inl EINVAL
      | Inr (File bs t) \<Rightarrow>
          (if dst = [] then Inl EISDIR
           else case Stat fs (butlast dst) of
             Inl e \<Rightarrow> Inl e
           | Inr (File bs' t') \<Rightarrow> Inl ENOTDIR
           | Inr (Dir sz' t') \<Rightarrow>
               (case map_of fs dst of
                  Some (Dir sz'' t'') \<Rightarrow> Inl EISDIR
                | _ \<Rightarrow> Inr (AList.update dst (File bs t) (AList.delete src fs)))))"

subsection \<open>The path codec\<close>

text \<open>\<^verbatim>\<open>fmt.Sprintf("%016x", index)\<close>: lowercase hexadecimal, zero-padded to sixteen
  characters, the sign of a negative number counted in the width.\<close>

definition hexdigit :: "nat \<Rightarrow> char" where
  "hexdigit d = ''0123456789abcdef'' ! (d mod 16)"

fun hex_nat :: "nat \<Rightarrow> string" where
  "hex_nat n = (if n < 16 then [hexdigit n] else hex_nat (n div 16) @ [hexdigit n])"

declare hex_nat.simps [simp del]

definition zero_pad :: "nat \<Rightarrow> string \<Rightarrow> string" where
  "zero_pad w s = replicate (w - length s) CHR ''0'' @ s"

definition fmt_016x :: "int \<Rightarrow> string" where
  "fmt_016x i =
     (if i < 0 then CHR ''-'' # zero_pad 15 (hex_nat (nat (- i)))
      else zero_pad 16 (hex_nat (nat i)))"

text \<open>
  Modelled from the spec: \<^verbatim>\<open>ParseSnapshotPath\<close> and \<^verbatim>\<open>ParseWALPath\<close> are not in
  replica.go. The spec: a snapshot filename is \<^verbatim>\<open><index>.snapshot\<close> or
  \<^verbatim>\<open><index>.snapshot.gz\<close>, a WAL filename \<^verbatim>\<open><index>.wal\<close> or \<^verbatim>\<open><index>.wal.gz\<close>, where
  the index is exactly 16 lowercase hex digits; parsing returns the index and the
  extension (for a WAL also the offset 0), or fails.
\<close>

definition hexval :: "char \<Rightarrow> nat option" where
  "hexval c = map_of (zip ''0123456789abcdef'' [0 ..< 16]) c"

fun parse_hex :: "nat \<Rightarrow> string \<Rightarrow> nat option" where
  "parse_hex acc [] = Some acc"
| "parse_hex acc (c # cs) =
     (case hexval c of None \<Rightarrow> None | Some v \<Rightarrow> parse_hex (16 * acc + v) cs)"

definition parse_index :: "string list \<Rightarrow> string \<Rightarrow> (int \<times> string) option" where
  "parse_index exts s =
     (if length s < 16 \<or> drop 16 s \<notin> set exts then None
      else case parse_hex 0 (take 16 s) of
        None \<Rightarrow> None
      | Some n \<Rightarrow> Some (int n, drop 16 s))"

definition ParseSnapshotPath :: "string \<Rightarrow> (int \<times> string) option" where
  "ParseSnapshotPath s = parse_index [''.snapshot'', ''.snapshot.gz''] s"

definition ParseWALPath :: "string \<Rightarrow> (int \<times> int \<times> string) option" where
  "ParseWALPath s =
     (case parse_index [''.wal'', ''.wal.gz''] s of
        None \<Rightarrow> None
      | Some (i, ext) \<Rightarrow> Some (i, 0, ext))"

subsection \<open>Positions, the replica, the environment\<close>

text \<open>
  \<^verbatim>\<open>Pos\<close> is declared outside replica.go: a generation, an index and an offset; the
  zero position has every field zero.
\<close>

record Pos =
  Generation :: string
  Index :: int
  Offset :: int

definition zero_Pos :: Pos where
  "zero_Pos = \<lparr>Generation = [], Index = 0, Offset = 0\<rparr>"

definition Pos_IsZero :: "Pos \<Rightarrow> bool" where
  "Pos_IsZero p = (p = zero_Pos)"

text \<open>
  The function value in the field \<^verbatim>\<open>cancel\<close>: the zero value of the field, the no-op
  \<^verbatim>\<open>func() {}\<close> that \<^verbatim>\<open>NewFileReplica\<close> stores, or the cancel function of
  \<^verbatim>\<open>context.WithCancel\<close>.
\<close>

datatype cancel_fn = NilFunc | NoOp | CancelCtx

text \<open>
  The fields of \<^verbatim>\<open>FileReplica\<close>; \<open>wg\<close> is the counter of the wait group, the database
  is part of the environment, the mutex has no sequential content.
\<close>

record FileReplica =
  name :: string
  dst :: path
  pos :: Pos
  wg :: nat
  cancel :: cancel_fn
  RetentionInterval :: int
  MonitorEnabled :: bool

text \<open>
  What \<^verbatim>\<open>ShadowWALReader\<close> returns: \<open>rd_Pos\<close> is \<^verbatim>\<open>rd.Pos()\<close> before the copy (it
  names the destination file and the offset to seek to), \<open>rd_data\<close> the bytes the reader
  yields, \<open>rd_end\<close> is \<^verbatim>\<open>rd.Pos()\<close> once \<^verbatim>\<open>io.Copy\<close> has drained it.
\<close>

record reader =
  rd_Pos :: Pos
  rd_data :: "byte list"
  rd_end :: Pos

text \<open>
  A failure of a step on the open destination file of \<^verbatim>\<open>syncWAL\<close> that the state of
  the file system does not explain (a full disk, an I/O error); \<open>CopyFault n\<close> fails
  after \<open>n\<close> bytes.
\<close>

datatype fault = NoFault | SeekFault | CopyFault nat | SyncFault | CloseFault

text \<open>
  The collaborators: the database adapter (\<^verbatim>\<open>r.db.Pos()\<close>, \<^verbatim>\<open>r.db.Path()\<close>, the
  outcome of \<^verbatim>\<open>r.db.db.Begin()\<close> and of the \<^verbatim>\<open>SELECT\<close> in the transaction,
  \<^verbatim>\<open>r.db.ShadowWALReader\<close> with \<open>Inl EOF\<close> for \<^verbatim>\<open>io.EOF\<close>), the faults of the
  destination file by the position \<^verbatim>\<open>syncWAL\<close> starts from, the validator
  \<^verbatim>\<open>IsGenerationName\<close>, gzip (the stream \<^verbatim>\<open>gzip.Writer\<close> produces for some bytes, and
  whether \<^verbatim>\<open>gzip.NewReader\<close> accepts the header of some bytes), and the clock.
\<close>

record env =
  db_Pos :: "error + Pos"
  db_Path :: path
  db_Begin :: "error option"
  db_Exec :: "error option"
  ShadowWALReader :: "Pos \<Rightarrow> error + reader"
  wal_fault :: "Pos \<Rightarrow> fault"
  IsGenerationName :: "string \<Rightarrow> bool"
  gzip :: "byte list \<Rightarrow> byte list"
  gzip_header :: "byte list \<Rightarrow> bool"
  now :: nat

text \<open>
  The cancellation of the context as the code observes it: \<open>Some n\<close> is a context that
  \<open>n\<close> checks of \<^verbatim>\<open>ctx.Done()\<close> find alive and every later one finds cancelled, \<open>None\<close>
  one that is never cancelled.
\<close>

type_synonym ctx = "nat option"

definition ctx_Done :: "ctx \<Rightarrow> bool" where
  "ctx_Done c = (c = Some 0)"

definition ctx_tick :: "ctx \<Rightarrow> ctx" where
  "ctx_tick c = (case c of None \<Rightarrow> None | Some n \<Rightarrow> Some (n - 1))"

subsection \<open>Construction, names, start and stop\<close>

text \<open>\<^verbatim>\<open>DefaultRetentionInterval\<close> is declared outside replica.go and is a parameter here.\<close>

definition NewFileReplica :: "int \<Rightarrow> string \<Rightarrow> path \<Rightarrow> FileReplica" where
  "NewFileReplica DefaultRetentionInterval nm d =
     \<lparr>name = nm, dst = d, pos = zero_Pos, wg = 0, cancel = NoOp,
      RetentionInterval = DefaultRetentionInterval, MonitorEnabled = True\<rparr>"

definition Type :: "FileReplica \<Rightarrow> string" where
  "Type r = ''file''"

definition Name_of :: "FileReplica \<Rightarrow> string" where
  "Name_of r = (if name r \<noteq> [] then name r else Type r)"

definition LastPos :: "FileReplica \<Rightarrow> Pos" where
  "LastPos r = pos r"

text \<open>
  What a call does from the caller's side: it returns (with the replica as it then
  is), it panics, or it waits for the goroutines the wait group counts and returns
  once they are done.
\<close>

datatype outcome = Returns FileReplica | Panics | Waits FileReplica

text \<open>
  \<^verbatim>\<open>Stop\<close>: \<^verbatim>\<open>r.cancel()\<close>, a panic on a nil function value, then \<^verbatim>\<open>r.wg.Wait()\<close>,
  which returns at once when the counter is zero. Neither call assigns a field.
\<close>

definition Stop :: "FileReplica \<Rightarrow> outcome" where
  "Stop r =
     (case cancel r of
        NilFunc \<Rightarrow> Panics
      | _ \<Rightarrow> (if wg r = 0 then Returns r else Waits r))"

text \<open>
  \<^verbatim>\<open>Start\<close>: nothing when \<^verbatim>\<open>MonitorEnabled\<close> is false; otherwise the previous run is
  stopped (its goroutines have left the wait group when \<^verbatim>\<open>Stop\<close> is back), the cancel
  function of the new context is stored and the two goroutines are added.
\<close>

definition Start :: "FileReplica \<Rightarrow> outcome" where
  "Start r =
     (if \<not> MonitorEnabled r then Returns r
      else case Stop r of
        Panics \<Rightarrow> Panics
      | _ \<Rightarrow> Returns (r\<lparr>cancel := CancelCtx, wg := 2\<rparr>))"

subsection \<open>Layout\<close>

definition GenerationDir :: "FileReplica \<Rightarrow> string \<Rightarrow> path" where
  "GenerationDir r generation = dst r @ [''generations'', generation]"

definition SnapshotDir :: "FileReplica \<Rightarrow> string \<Rightarrow> path" where
  "SnapshotDir r generation = GenerationDir r generation @ [''snapshots'']"

definition SnapshotPath :: "FileReplica \<Rightarrow> string \<Rightarrow> int \<Rightarrow> path" where
  "SnapshotPath r generation index =
     SnapshotDir r generation @ [fmt_016x index @ ''.snapshot.gz'']"

definition WALDir :: "FileReplica \<Rightarrow> string \<Rightarrow> path" where
  "WALDir r generation = GenerationDir r generation @ [''wal'']"

definition WALPath :: "FileReplica \<Rightarrow> string \<Rightarrow> int \<Rightarrow> path" where
  "WALPath r generation index = WALDir r generation @ [fmt_016x index @ ''.wal'']"

text \<open>A path string with a suffix appended (\<^verbatim>\<open>dst + ".tmp"\<close>, \<^verbatim>\<open>filename + ".gz"\<close>).\<close>

definition path_add :: "path \<Rightarrow> string \<Rightarrow> path" where
  "path_add p s = (if p = [] then [s] else butlast p @ [last p @ s])"

subsection \<open>Listing\<close>

definition snapshot_index :: "FileInfo \<Rightarrow> int option" where
  "snapshot_index fi = map_option fst (ParseSnapshotPath (Name fi))"

definition wal_index :: "FileInfo \<Rightarrow> int option" where
  "wal_index fi = map_option fst (ParseWALPath (Name fi))"

text \<open>
  The body of the loops of \<^verbatim>\<open>MaxSnapshotIndex\<close> and \<^verbatim>\<open>CalcPos\<close>: an entry that does
  not parse is skipped, a parsed index replaces the running one when that is still -1
  or smaller.
\<close>

definition max_step :: "int option \<Rightarrow> int \<Rightarrow> int" where
  "max_step p index =
     (case p of
        None \<Rightarrow> index
      | Some idx \<Rightarrow> (if index = - 1 \<or> idx > index then idx else index))"

definition MaxSnapshotIndex :: "FileReplica \<Rightarrow> fs \<Rightarrow> string \<Rightarrow> error + int" where
  "MaxSnapshotIndex r fs generation =
     (case ReadDir fs (SnapshotDir r generation) of
        Inl e \<Rightarrow> Inl e
      | Inr fis \<Rightarrow>
          (let index = fold (\<lambda>fi. max_step (snapshot_index fi)) fis (- 1)
           in if index = - 1 then Inl NoSnapshotsFound else Inr index))"

definition Generations :: "env \<Rightarrow> FileReplica \<Rightarrow> fs \<Rightarrow> error + string list" where
  "Generations env r fs =
     (case ReadDir fs (dst r @ [''generations'']) of
        Inl e \<Rightarrow> (if IsNotExist e then Inr [] else Inl e)
      | Inr fis \<Rightarrow>
          Inr (map Name (filter (\<lambda>fi. IsGenerationName env (Name fi) \<and> IsDir fi) fis)))"

record SnapshotInfo =
  sn_Name :: string
  sn_Replica :: string
  sn_Generation :: string
  sn_Index :: int
  sn_Size :: int
  sn_CreatedAt :: int

definition snapshot_infos :: "FileReplica \<Rightarrow> string \<Rightarrow> FileInfo list \<Rightarrow> SnapshotInfo list" where
  "snapshot_infos r generation fis =
     concat (map (\<lambda>fi. case snapshot_index fi of
                         None \<Rightarrow> []
                       | Some index \<Rightarrow>
                           [\<lparr>sn_Name = Name fi, sn_Replica = Name_of r,
                             sn_Generation = generation, sn_Index = index,
                             sn_Size = Size fi, sn_CreatedAt = ModTime fi\<rparr>]) fis)"

fun Snapshots_loop :: "FileReplica \<Rightarrow> fs \<Rightarrow> string list \<Rightarrow> error + SnapshotInfo list" where
  "Snapshots_loop r fs [] = Inr []"
| "Snapshots_loop r fs (generation # generations) =
     (case ReadDir fs (SnapshotDir r generation) of
        Inl e \<Rightarrow> (if IsNotExist e then Snapshots_loop r fs generations else Inl e)
      | Inr fis \<Rightarrow>
          (case Snapshots_loop r fs generations of
             Inl e \<Rightarrow> Inl e
           | Inr infos \<Rightarrow> Inr (snapshot_infos r generation fis @ infos)))"

definition Snapshots :: "env \<Rightarrow> FileReplica \<Rightarrow> fs \<Rightarrow> error + SnapshotInfo list" where
  "Snapshots env r fs =
     (case Generations env r fs of
        Inl e \<Rightarrow> Inl e
      | Inr generations \<Rightarrow> Snapshots_loop r fs generations)"

subsection \<open>Position\<close>

definition CalcPos :: "FileReplica \<Rightarrow> fs \<Rightarrow> string \<Rightarrow> error + Pos" where
  "CalcPos r fs generation =
     (case MaxSnapshotIndex r fs generation of
        Inl e \<Rightarrow> Inl e
      | Inr sindex \<Rightarrow>
          (let p = \<lparr>Generation = generation, Index = sindex, Offset = 0\<rparr> in
           case ReadDir fs (WALDir r generation) of
             Inl e \<Rightarrow> (if IsNotExist e then Inr p else Inl e)
           | Inr fis \<Rightarrow>
               (let index = fold (\<lambda>fi. max_step (wal_index fi)) fis (- 1) in
                if index = - 1 then Inr p
                else case Stat fs (WALPath r generation index) of
                  Inl e \<Rightarrow> Inl e
                | Inr nd \<Rightarrow> Inr (p\<lparr>Index := index, Offset := node_size nd\<rparr>))))"

subsection \<open>Compressing a file, snapshots\<close>

text \<open>
  \<^verbatim>\<open>compressFile\<close>: the source is opened, the temporary file is created (emptied when
  it exists), the gzip stream of the source's bytes is written to it, and it is renamed
  to the destination. Reading a directory fails; the deferred \<^verbatim>\<open>gz.Close()\<close> then
  leaves the gzip stream of no bytes in the temporary file. The result is the error, if
  any, and the file system as the call leaves it.
\<close>

definition compressFile :: "env \<Rightarrow> fs \<Rightarrow> path \<Rightarrow> path \<Rightarrow> error option \<times> fs" where
  "compressFile env fs src dest =
     (case Open fs src of
        Inl e \<Rightarrow> (Some e, fs)
      | Inr nd0 \<Rightarrow>
          (case open_create True fs (path_add dest ''.tmp'') (now env) of
             Inl e \<Rightarrow> (Some e, fs)
           | Inr fs1 \<Rightarrow>
               (case map_of fs1 src of
                  Some (File bs t) \<Rightarrow>
                    (let fs2 = AList.update (path_add dest ''.tmp'')
                                 (File (gzip env bs) (now env)) fs1
                     in case Rename fs2 (path_add dest ''.tmp'') dest of
                          Inl e \<Rightarrow> (Some e, fs2)
                        | Inr fs3 \<Rightarrow> (None, fs3))
                | _ \<Rightarrow>
                    (Some EISDIR,
                     AList.update (path_add dest ''.tmp'')
                       (File (gzip env []) (now env)) fs1))))"

text \<open>
  \<^verbatim>\<open>snapshot\<close>: the read transaction on the database first; then nothing more when
  \<^verbatim>\<open>os.Stat\<close> finds the snapshot path; otherwise the directory is made and the
  database file compressed into the snapshot path.
\<close>

definition snapshot :: "env \<Rightarrow> FileReplica \<Rightarrow> fs \<Rightarrow> string \<Rightarrow> int \<Rightarrow> error option \<times> fs" where
  "snapshot env r fs generation index =
     (case db_Begin env of
        Some e \<Rightarrow> (Some e, fs)
      | None \<Rightarrow>
          (case db_Exec env of
             Some e \<Rightarrow> (Some e, fs)
           | None \<Rightarrow>
               (case Stat fs (SnapshotPath r generation index) of
                  Inr nd \<Rightarrow> (None, fs)
                | Inl e0 \<Rightarrow>
                    (case mkdirAll fs (SnapshotDir r generation) (now env) of
                       Inl e \<Rightarrow> (Some e, fs)
                     | Inr fs1 \<Rightarrow>
                         compressFile env fs1 (db_Path env)
                           (SnapshotPath r generation index)))))"

definition snapshotN :: "FileReplica \<Rightarrow> fs \<Rightarrow> string \<Rightarrow> error + nat" where
  "snapshotN r fs generation =
     (case ReadDir fs (SnapshotDir r generation) of
        Inl e \<Rightarrow> (if IsNotExist e then Inr 0 else Inl e)
      | Inr fis \<Rightarrow> Inr (length (filter (\<lambda>fi. snapshot_index fi \<noteq> None) fis)))"

subsection \<open>Synchronisation\<close>

text \<open>
  Writing \<open>data\<close> at offset \<open>off\<close> of a file holding \<open>old\<close>: the bytes before the offset
  stay (a gap is zero-filled), the bytes after the written range stay.
\<close>

definition write_at :: "byte list \<Rightarrow> nat \<Rightarrow> byte list \<Rightarrow> byte list" where
  "write_at old off data =
     (if data = [] then old
      else take off old @ replicate (off - length old) 0 @ data
           @ drop (off + length data) old)"

text \<open>
  \<^verbatim>\<open>syncWAL\<close>. The result is the error (\<open>Some EOF\<close> for \<^verbatim>\<open>io.EOF\<close>), the replica and the
  file system. The steps on the open file fail on the fault the environment gives for
  the starting position; a seek to a negative offset fails by itself.
\<close>

definition syncWAL :: "env \<Rightarrow> FileReplica \<Rightarrow> fs \<Rightarrow> error option \<times> FileReplica \<times> fs" where
  "syncWAL env r fs =
     (case ShadowWALReader env (LastPos r) of
        Inl e \<Rightarrow>
          (if e = EOF then (Some EOF, r, fs) else (Some (Wrapped ''wal reader'' e), r, fs))
      | Inr rd \<Rightarrow>
          (let filename = WALPath r (Generation (rd_Pos rd)) (Index (rd_Pos rd));
               flt = wal_fault env (LastPos r)
           in case mkdirAll fs (WALDir r (Generation (rd_Pos rd))) (now env) of
                Inl e \<Rightarrow> (Some e, r, fs)
              | Inr fs1 \<Rightarrow>
                  (case open_create False fs1 filename (now env) of
                     Inl e \<Rightarrow> (Some e, r, fs1)
                   | Inr fs2 \<Rightarrow>
                       (if Offset (rd_Pos rd) < 0 then (Some EINVAL, r, fs2)
                        else if flt = SeekFault then (Some EIO, r, fs2)
                        else
                          (let old = (case map_of fs2 filename of
                                        Some (File bs t) \<Rightarrow> bs | _ \<Rightarrow> []);
                               written = (case flt of
                                            CopyFault n \<Rightarrow> take n (rd_data rd)
                                          | _ \<Rightarrow> rd_data rd);
                               fs3 = (if written = [] then fs2
                                      else AList.update filename
                                             (File (write_at old (nat (Offset (rd_Pos rd)))
                                                      written) (now env)) fs2)
                           in case flt of
                                CopyFault n \<Rightarrow> (Some EIO, r, fs3)
                              | SyncFault \<Rightarrow> (Some EIO, r, fs3)
                              | CloseFault \<Rightarrow> (Some EIO, r, fs3)
                              | _ \<Rightarrow> (None, r\<lparr>pos := rd_end rd\<rparr>, fs3))))))"

text \<open>
  The loop \<^verbatim>\<open>for { syncWAL }\<close> of \<^verbatim>\<open>Sync\<close>, which ends on \<^verbatim>\<open>io.EOF\<close> or on an error.
  Nothing bounds it: a reader that never reports the end keeps it running, so it takes
  fuel, and \<open>None\<close> is a loop that has not ended when the fuel is used up.
\<close>

fun syncWAL_loop ::
  "nat \<Rightarrow> env \<Rightarrow> FileReplica \<Rightarrow> fs \<Rightarrow> (error option \<times> FileReplica \<times> fs) option" where
  "syncWAL_loop 0 env r fs = None"
| "syncWAL_loop (Suc n) env r fs =
     (case syncWAL env r fs of
        (Some e, r', fs') \<Rightarrow>
          (if e = EOF then Some (None, r', fs') else Some (Some e, r', fs'))
      | (None, r', fs') \<Rightarrow> syncWAL_loop n env r' fs')"

text \<open>
  \<^verbatim>\<open>filepath.Glob(filepath.Join(dir, "**/*.wal"))\<close>. In Go's pattern syntax a star
  matches within one path component, and two stars are two such stars: the pattern is
  \<^verbatim>\<open>dir/*/*.wal\<close>, it matches the names ending in \<^verbatim>\<open>.wal\<close> in the directories that are
  entries of \<open>dir\<close>. Glob skips what it cannot read, and the directory is taken to hold
  no pattern character, so there is no error.
\<close>

definition dir_names :: "fs \<Rightarrow> path \<Rightarrow> string list" where
  "dir_names fs d = (case ReadDir fs d of Inl e \<Rightarrow> [] | Inr fis \<Rightarrow> map Name fis)"

definition Glob_wal :: "fs \<Rightarrow> path \<Rightarrow> path list" where
  "Glob_wal fs dir =
     concat (map (\<lambda>d. map (\<lambda>n. dir @ [d, n])
                        (filter (suffix ''.wal'') (dir_names fs (dir @ [d]))))
               (dir_names fs dir))"

text \<open>The path as the string \<^verbatim>\<open>sort.Strings\<close> compares.\<close>

definition path_string :: "path \<Rightarrow> string" where
  "path_string p = concat (map (\<lambda>c. CHR ''/'' # c) p)"

text \<open>
  The loop of \<^verbatim>\<open>compress\<close>. \<open>err\<close> is the variable \<^verbatim>\<open>err\<close> of the function, which the
  branch of \<^verbatim>\<open>ctx.Done()\<close> returns.
\<close>

fun compress_loop ::
  "env \<Rightarrow> ctx \<Rightarrow> error option \<Rightarrow> fs \<Rightarrow> path list \<Rightarrow> error option \<times> fs" where
  "compress_loop env c err fs [] = (None, fs)"
| "compress_loop env c err fs (filename # filenames) =
     (if ctx_Done c then (err, fs)
      else case compressFile env fs filename (path_add filename ''.gz'') of
        (Some e, fs1) \<Rightarrow> (Some e, fs1)
      | (None, fs1) \<Rightarrow>
          (case Remove fs1 filename of
             Inl e \<Rightarrow> (Some e, fs1)
           | Inr fs2 \<Rightarrow> compress_loop env (ctx_tick c) err fs2 filenames))"

definition compress :: "env \<Rightarrow> ctx \<Rightarrow> FileReplica \<Rightarrow> fs \<Rightarrow> string \<Rightarrow> error option \<times> fs" where
  "compress env c r fs generation =
     (let filenames = Glob_wal fs (WALDir r generation); err = None in
      if length filenames \<le> 1 then (None, fs)
      else compress_loop env c err fs (butlast (sort_key path_string filenames)))"

text \<open>The first two steps of \<^verbatim>\<open>Sync\<close> after the database position is known.\<close>

definition Sync_snapshot :: "env \<Rightarrow> FileReplica \<Rightarrow> fs \<Rightarrow> Pos \<Rightarrow> error option \<times> fs" where
  "Sync_snapshot env r fs dpos =
     (case snapshotN r fs (Generation dpos) of
        Inl e \<Rightarrow> (Some e, fs)
      | Inr n \<Rightarrow>
          (if n = 0 then snapshot env r fs (Generation dpos) (Index dpos)
           else (None, fs)))"

definition Sync_pos :: "FileReplica \<Rightarrow> fs \<Rightarrow> string \<Rightarrow> error + FileReplica" where
  "Sync_pos r fs generation =
     (if Pos_IsZero (LastPos r) then
        (case CalcPos r fs generation of
           Inl e \<Rightarrow> Inl (Wrapped ''cannot determine replica position'' e)
         | Inr p \<Rightarrow> Inr (r\<lparr>pos := p\<rparr>))
      else Inr r)"

definition Sync ::
  "nat \<Rightarrow> env \<Rightarrow> ctx \<Rightarrow> FileReplica \<Rightarrow> fs \<Rightarrow> (error option \<times> FileReplica \<times> fs) option" where
  "Sync fuel env c r fs =
     (case db_Pos env of
        Inl e \<Rightarrow> Some (Some (Wrapped ''cannot determine current generation'' e), r, fs)
      | Inr dpos \<Rightarrow>
          (if Pos_IsZero dpos then Some (Some NoGeneration, r, fs)
           else case Sync_snapshot env r fs dpos of
             (Some e, fs1) \<Rightarrow> Some (Some e, r, fs1)
           | (None, fs1) \<Rightarrow>
               (case Sync_pos r fs1 (Generation dpos) of
                  Inl e \<Rightarrow> Some (Some e, r, fs1)
                | Inr r1 \<Rightarrow>
                    (case syncWAL_loop fuel env r1 fs1 of
                       None \<Rightarrow> None
                     | Some (Some e, r2, fs2) \<Rightarrow> Some (Some e, r2, fs2)
                     | Some (None, r2, fs2) \<Rightarrow>
                         (if Generation dpos \<noteq> [] then
                            (case compress env c r2 fs2 (Generation dpos) of
                               (Some e, fs3) \<Rightarrow>
                                 Some (Some (Wrapped ''cannot compress'' e), r2, fs3)
                             | (None, fs3) \<Rightarrow> Some (None, r2, fs3))
                          else Some (None, r2, fs2))))))"

subsection \<open>Indexes by time\<close>

text \<open>
  The body of the loop of \<^verbatim>\<open>SnapshotIndexAt\<close> on the pair \<^verbatim>\<open>(index, max)\<close>.
\<close>

definition SnapshotIndexAt_step :: "int \<Rightarrow> FileInfo \<Rightarrow> int \<times> int \<Rightarrow> int \<times> int" where
  "SnapshotIndexAt_step timestamp fi st =
     (case snapshot_index fi of
        None \<Rightarrow> st
      | Some idx \<Rightarrow>
          (if timestamp \<noteq> 0 \<and> ModTime fi > timestamp then st
           else if snd st = 0 \<or> ModTime fi > snd st then (idx, ModTime fi)
           else st))"

definition SnapshotIndexAt :: "FileReplica \<Rightarrow> fs \<Rightarrow> string \<Rightarrow> int \<Rightarrow> error + int" where
  "SnapshotIndexAt r fs generation timestamp =
     (case ReadDir fs (SnapshotDir r generation) of
        Inl e \<Rightarrow> (if IsNotExist e then Inl ErrNoSnapshots else Inl e)
      | Inr fis \<Rightarrow>
          (let index = fst (fold (SnapshotIndexAt_step timestamp) fis (- 1, 0))
           in if index = - 1 then Inl ErrNoSnapshots else Inr index))"

definition MaxInt64 :: int where
  "MaxInt64 = 9223372036854775807"

text \<open>The body of the loop of \<^verbatim>\<open>WALIndexAt\<close> on \<^verbatim>\<open>index\<close>.\<close>

definition WALIndexAt_step :: "int \<Rightarrow> int \<Rightarrow> FileInfo \<Rightarrow> int \<Rightarrow> int" where
  "WALIndexAt_step maxIndex timestamp fi index =
     (case wal_index fi of
        None \<Rightarrow> index
      | Some idx \<Rightarrow>
          (if timestamp \<noteq> 0 \<and> ModTime fi > timestamp then index
           else if idx > maxIndex then index
           else if idx < index then index
           else idx))"

text \<open>\<^verbatim>\<open>WALIndexAt\<close> returns its index also beside an error.\<close>

definition WALIndexAt ::
  "FileReplica \<Rightarrow> fs \<Rightarrow> string \<Rightarrow> int \<Rightarrow> int \<Rightarrow> int \<times> error option" where
  "WALIndexAt r fs generation maxIndex timestamp =
     (case ReadDir fs (WALDir r generation) of
        Inl e \<Rightarrow> (if IsNotExist e then (0, None) else (0, Some e))
      | Inr fis \<Rightarrow>
          (let index = fold (WALIndexAt_step maxIndex timestamp) fis 0
           in if maxIndex \<noteq> MaxInt64 \<and> index \<noteq> maxIndex
              then (index, Some (IndexNotFound maxIndex generation index))
              else (index, None)))"

subsection \<open>Readers\<close>

text \<open>
  What \<^verbatim>\<open>WALReader\<close> returns: the open file, or the gzip reader with the file as its
  closer.
\<close>

datatype ReadCloser = FileReader path | gzipReadCloser path

text \<open>\<^verbatim>\<open>gzip.NewReader\<close> reads the header: a directory cannot be read.\<close>

definition gzip_NewReader :: "env \<Rightarrow> node \<Rightarrow> error option" where
  "gzip_NewReader env nd =
     (case nd of
        Dir sz t \<Rightarrow> Some EISDIR
      | File bs t \<Rightarrow> (if gzip_header env bs then None else Some ErrGzipHeader))"

definition WALReader ::
  "env \<Rightarrow> FileReplica \<Rightarrow> fs \<Rightarrow> string \<Rightarrow> int \<Rightarrow> error + ReadCloser" where
  "WALReader env r fs generation index =
     (let filename = WALPath r generation index in
      case Open fs filename of
        Inr f \<Rightarrow> Inr (FileReader filename)
      | Inl e \<Rightarrow>
          (if \<not> IsNotExist e then Inl e
           else case Open fs (path_add filename ''.gz'') of
             Inl e' \<Rightarrow> Inl e'
           | Inr f \<Rightarrow>
               (case gzip_NewReader env f of
                  Some e' \<Rightarrow> Inl e'
                | None \<Rightarrow> Inr (gzipReadCloser (path_add filename ''.gz'')))))"

subsection \<open>Retention\<close>

text \<open>
  Modelled from the spec: \<^verbatim>\<open>FilterSnapshotsAfter\<close> and \<^verbatim>\<open>FindMinSnapshotByGeneration\<close>
  are not in replica.go. The spec: the snapshots are filtered to those with
  \<^verbatim>\<open>created_at\<close> at or after \<^verbatim>\<open>now - RetentionInterval\<close>; for a generation, the
  retained snapshot of earliest index within it, if any.
\<close>

definition FilterSnapshotsAfter :: "SnapshotInfo list \<Rightarrow> int \<Rightarrow> SnapshotInfo list" where
  "FilterSnapshotsAfter a t = filter (\<lambda>s. sn_CreatedAt s \<ge> t) a"

fun FindMin_loop :: "string \<Rightarrow> SnapshotInfo option \<Rightarrow> SnapshotInfo list \<Rightarrow> SnapshotInfo option" where
  "FindMin_loop generation m [] = m"
| "FindMin_loop generation m (s # a) =
     (if sn_Generation s \<noteq> generation then FindMin_loop generation m a
      else case m of
        None \<Rightarrow> FindMin_loop generation (Some s) a
      | Some s' \<Rightarrow>
          (if sn_Index s < sn_Index s' then FindMin_loop generation (Some s) a
           else FindMin_loop generation m a))"

definition FindMinSnapshotByGeneration :: "SnapshotInfo list \<Rightarrow> string \<Rightarrow> SnapshotInfo option" where
  "FindMinSnapshotByGeneration a generation = FindMin_loop generation None a"

text \<open>
  The loops of \<^verbatim>\<open>deleteGenerationSnapshotsBefore\<close> and \<^verbatim>\<open>deleteGenerationWALBefore\<close>:
  every entry that parses with an index below \<open>index\<close> is removed; the first failure
  ends the loop.
\<close>

fun delete_before_loop ::
  "(FileInfo \<Rightarrow> int option) \<Rightarrow> path \<Rightarrow> int \<Rightarrow> fs \<Rightarrow> FileInfo list \<Rightarrow> error option \<times> fs" where
  "delete_before_loop parse dir index fs [] = (None, fs)"
| "delete_before_loop parse dir index fs (fi # fis) =
     (case parse fi of
        None \<Rightarrow> delete_before_loop parse dir index fs fis
      | Some idx \<Rightarrow>
          (if idx \<ge> index then delete_before_loop parse dir index fs fis
           else case Remove fs (dir @ [Name fi]) of
             Inl e \<Rightarrow> (Some e, fs)
           | Inr fs' \<Rightarrow> delete_before_loop parse dir index fs' fis))"

definition deleteGenerationSnapshotsBefore ::
  "FileReplica \<Rightarrow> fs \<Rightarrow> string \<Rightarrow> int \<Rightarrow> error option \<times> fs" where
  "deleteGenerationSnapshotsBefore r fs generation index =
     (case ReadDir fs (SnapshotDir r generation) of
        Inl e \<Rightarrow> (if IsNotExist e then (None, fs) else (Some e, fs))
      | Inr fis \<Rightarrow>
          delete_before_loop snapshot_index (SnapshotDir r generation) index fs fis)"

definition deleteGenerationWALBefore ::
  "FileReplica \<Rightarrow> fs \<Rightarrow> string \<Rightarrow> int \<Rightarrow> error option \<times> fs" where
  "deleteGenerationWALBefore r fs generation index =
     (case ReadDir fs (WALDir r generation) of
        Inl e \<Rightarrow> (if IsNotExist e then (None, fs) else (Some e, fs))
      | Inr fis \<Rightarrow> delete_before_loop wal_index (WALDir r generation) index fs fis)"

text \<open>The loop of \<^verbatim>\<open>EnforceRetention\<close> over the generations.\<close>

fun retention_loop ::
  "FileReplica \<Rightarrow> SnapshotInfo list \<Rightarrow> fs \<Rightarrow> string list \<Rightarrow> error option \<times> fs" where
  "retention_loop r snapshots fs [] = (None, fs)"
| "retention_loop r snapshots fs (generation # generations) =
     (case FindMinSnapshotByGeneration snapshots generation of
        None \<Rightarrow>
          (case RemoveAll fs (GenerationDir r generation) of
             Inl e \<Rightarrow> (Some (Wrapped ''cannot delete generation dir'' e), fs)
           | Inr fs1 \<Rightarrow> retention_loop r snapshots fs1 generations)
      | Some s \<Rightarrow>
          (case deleteGenerationSnapshotsBefore r fs generation (sn_Index s) of
             (Some e, fs1) \<Rightarrow>
               (Some (Wrapped ''cannot delete generation snapshots before index'' e), fs1)
           | (None, fs1) \<Rightarrow>
               (case deleteGenerationWALBefore r fs1 generation (sn_Index s) of
                  (Some e, fs2) \<Rightarrow>
                    (Some (Wrapped ''cannot delete generation wal before index'' e), fs2)
                | (None, fs2) \<Rightarrow> retention_loop r snapshots fs2 generations)))"

text \<open>
  The snapshots \<^verbatim>\<open>EnforceRetention\<close> retains: those of the listing inside the
  retention period; when there is none, a snapshot is taken at the position of the
  database and stands alone in the list, with only its generation and index set.
\<close>

definition synthetic_snapshot :: "Pos \<Rightarrow> SnapshotInfo" where
  "synthetic_snapshot p =
     \<lparr>sn_Name = [], sn_Replica = [], sn_Generation = Generation p, sn_Index = Index p,
      sn_Size = 0, sn_CreatedAt = 0\<rparr>"

definition retained ::
  "env \<Rightarrow> FileReplica \<Rightarrow> fs \<Rightarrow> Pos \<Rightarrow> SnapshotInfo list \<Rightarrow>
     error option \<times> SnapshotInfo list \<times> fs" where
  "retained env r fs p infos =
     (let snapshots = FilterSnapshotsAfter infos (int (now env) - RetentionInterval r) in
      if length snapshots = 0 then
        (case snapshot env r fs (Generation p) (Index p) of
           (Some e, fs1) \<Rightarrow> (Some (Wrapped ''cannot snapshot'' e), snapshots, fs1)
         | (None, fs1) \<Rightarrow> (None, snapshots @ [synthetic_snapshot p], fs1))
      else (None, snapshots, fs))"

definition EnforceRetention :: "env \<Rightarrow> FileReplica \<Rightarrow> fs \<Rightarrow> error option \<times> fs" where
  "EnforceRetention env r fs =
     (case db_Pos env of
        Inl e \<Rightarrow> (Some (Wrapped ''cannot determine current generation'' e), fs)
      | Inr p \<Rightarrow>
          (if Pos_IsZero p then (Some NoGeneration, fs)
           else case Snapshots env r fs of
             Inl e \<Rightarrow> (Some (Wrapped ''cannot obtain snapshot list'' e), fs)
           | Inr infos \<Rightarrow>
               (case retained env r fs p infos of
                  (Some e, snapshots, fs1) \<Rightarrow> (Some e, fs1)
                | (None, snapshots, fs1) \<Rightarrow>
                    (case Generations env r fs1 of
                       Inl e \<Rightarrow> (Some (Wrapped ''cannot obtain generations'' e), fs1)
                     | Inr generations \<Rightarrow> retention_loop r snapshots fs1 generations))))"

subsection \<open>Notions of the statements\<close>

text \<open>
  The index of a directory entry when \<^verbatim>\<open>WALIndexAt\<close> lets it through: it parses as a
  WAL file, it is not after the timestamp, and its index is not above \<open>maxIndex\<close> (the
  three \<^verbatim>\<open>continue\<close> branches before the comparison with the running index).
\<close>

definition WALIndexAt_candidate :: "int \<Rightarrow> int \<Rightarrow> FileInfo \<Rightarrow> int option" where
  "WALIndexAt_candidate maxIndex timestamp fi =
     (case wal_index fi of
        None \<Rightarrow> None
      | Some idx \<Rightarrow>
          (if timestamp \<noteq> 0 \<and> ModTime fi > timestamp then None
           else if idx > maxIndex then None
           else Some idx))"

text \<open>
  The invariant of the loop of \<^verbatim>\<open>SnapshotIndexAt\<close> for the zero timestamp, on the
  entries seen so far: no snapshot among them and the initial pair, or the pair of a
  snapshot among them that none of them is newer than.
\<close>

definition SnapshotIndexAt_inv :: "FileInfo list \<Rightarrow> int \<times> int \<Rightarrow> bool" where
  "SnapshotIndexAt_inv seen st =
     (if List.map_filter snapshot_index seen = [] then st = (- 1, 0)
      else \<exists>fi\<in>set seen. snapshot_index fi = Some (fst st) \<and> ModTime fi = snd st
             \<and> (\<forall>fi'\<in>set seen. snapshot_index fi' \<noteq> None \<longrightarrow> ModTime fi' \<le> snd st))"

subsection \<open>Example states\<close>

text \<open>
  The states the theorems below are instantiated at. The theorems hold for every gzip;
  the examples use a stand-in whose streams begin with the two magic bytes.
\<close>

definition ex_gzip :: "byte list \<Rightarrow> byte list" where
  "ex_gzip bs = 31 # 139 # bs"

definition ex_gzip_header :: "byte list \<Rightarrow> bool" where
  "ex_gzip_header bs = (take 2 bs = [31, 139])"

definition ex_r :: FileReplica where
  "ex_r = NewFileReplica 3600 [] [''backup'']"

definition ex_env :: env where
  "ex_env =
     \<lparr>db_Pos = Inr \<lparr>Generation = ''g1'', Index = 1, Offset = 0\<rparr>,
      db_Path = [''db''],
      db_Begin = None,
      db_Exec = None,
      ShadowWALReader = (\<lambda>p. Inl EOF),
      wal_fault = (\<lambda>p. NoFault),
      IsGenerationName = (\<lambda>s. True),
      gzip = ex_gzip,
      gzip_header = ex_gzip_header,
      now = 10000\<rparr>"

definition ex_rd :: reader where
  "ex_rd =
     \<lparr>rd_Pos = \<lparr>Generation = ''g1'', Index = 1, Offset = 0\<rparr>, rd_data = [7, 8],
      rd_end = \<lparr>Generation = ''g1'', Index = 1, Offset = 2\<rparr>\<rparr>"

text \<open>
  The tree of one generation under \<^verbatim>\<open>backup\<close>: the snapshot files and the WAL files
  are given by name, bytes and modification time.
\<close>

definition ex_layout ::
  "string \<Rightarrow> (string \<times> byte list \<times> nat) list \<Rightarrow> (string \<times> byte list \<times> nat) list \<Rightarrow> fs" where
  "ex_layout g snaps wals =
     [([''backup''], Dir 0 1), ([''backup'', ''generations''], Dir 0 1),
      ([''backup'', ''generations'', g], Dir 0 1),
      ([''backup'', ''generations'', g, ''snapshots''], Dir 0 1),
      ([''backup'', ''generations'', g, ''wal''], Dir 0 1)]
     @ map (\<lambda>(n, bs, t). ([''backup'', ''generations'', g, ''snapshots'', n], File bs t)) snaps
     @ map (\<lambda>(n, bs, t). ([''backup'', ''generations'', g, ''wal'', n], File bs t)) wals"

text \<open>
  A generation with a snapshot at index 1, the compressed WAL file of index 1 and the
  uncompressed one of index 2; the same with the compressed file alone; and two
  generations of snapshots only, the newer snapshot having the higher or the lower index.
\<close>

definition ex_fs :: fs where
  "ex_fs =
     ex_layout ''g1'' [(''0000000000000001.snapshot.gz'', [31, 139, 1], 5)]
       [(''0000000000000001.wal.gz'', [31, 139, 4], 6), (''0000000000000002.wal'', [4, 5], 7)]"

definition ex_fs_sealed :: fs where
  "ex_fs_sealed =
     ex_layout ''g1'' [(''0000000000000001.snapshot.gz'', [31, 139, 1], 5)]
       [(''0000000000000001.wal.gz'', [31, 139, 4], 6)]"

definition ex_fs_snapshots :: "nat \<Rightarrow> nat \<Rightarrow> fs" where
  "ex_fs_snapshots t1 t2 =
     ex_layout ''g1'' [(''0000000000000001.snapshot.gz'', [31, 139, 1], t1),
                       (''0000000000000002.snapshot.gz'', [31, 139, 2], t2)] []"

text \<open>
  Two calls of \<^verbatim>\<open>Sync\<close> on an empty destination: the database is at index 1 of
  generation \<^verbatim>\<open>g1\<close> with two bytes of WAL to copy, then at index 2 with one byte.
  \<^verbatim>\<open>ex_fs1\<close> and \<^verbatim>\<open>ex_fs2\<close> are the destination after the first and the second call.
\<close>

definition ex_fs0 :: fs where
  "ex_fs0 = [([''db''], File [9, 9] 1)]"

definition ex_env1 :: env where
  "ex_env1 = ex_env\<lparr>ShadowWALReader := (\<lambda>p.
       if p = \<lparr>Generation = ''g1'', Index = 1, Offset = 0\<rparr> then Inr ex_rd else Inl EOF)\<rparr>"

definition ex_env2 :: env where
  "ex_env2 = ex_env\<lparr>db_Pos := Inr \<lparr>Generation = ''g1'', Index = 2, Offset = 1\<rparr>,
     ShadowWALReader := (\<lambda>p.
       if p = \<lparr>Generation = ''g1'', Index = 1, Offset = 2\<rparr>
       then Inr \<lparr>rd_Pos = \<lparr>Generation = ''g1'', Index = 2, Offset = 0\<rparr>, rd_data = [6],
                 rd_end = \<lparr>Generation = ''g1'', Index = 2, Offset = 1\<rparr>\<rparr>
       else Inl EOF)\<rparr>"

definition ex_fs1 :: fs where
  "ex_fs1 =
     [([''db''], File [9, 9] 1), ([''backup''], Dir 0 10000),
      ([''backup'', ''generations''], Dir 0 10000),
      ([''backup'', ''generations'', ''g1''], Dir 0 10000),
      ([''backup'', ''generations'', ''g1'', ''snapshots''], Dir 0 10000),
      ([''backup'', ''generations'', ''g1'', ''snapshots'', ''0000000000000001.snapshot.gz''],
       File [31, 139, 9, 9] 10000),
      ([''backup'', ''generations'', ''g1'', ''wal''], Dir 0 10000),
      ([''backup'', ''generations'', ''g1'', ''wal'', ''0000000000000001.wal''],
       File [7, 8] 10000)]"

definition ex_fs2 :: fs where
  "ex_fs2 = ex_fs1 @
     [([''backup'', ''generations'', ''g1'', ''wal'', ''0000000000000002.wal''], File [6] 10000)]"

text \<open>
  A WAL directory with a subdirectory \<^verbatim>\<open>x\<close> that holds three \<^verbatim>\<open>.wal\<close> files, which the
  pattern of \<^verbatim>\<open>compress\<close> matches, and the same tree once the first one is compressed.
\<close>

definition ex_fs_nested :: fs where
  "ex_fs_nested =
     ex_layout ''g1'' [(''0000000000000001.snapshot.gz'', [31, 139, 1], 5)] []
     @ [([''backup'', ''generations'', ''g1'', ''wal'', ''x''], Dir 0 1),
        ([''backup'', ''generations'', ''g1'', ''wal'', ''x'', ''a.wal''], File [1] 2),
        ([''backup'', ''generations'', ''g1'', ''wal'', ''x'', ''b.wal''], File [2] 3),
        ([''backup'', ''generations'', ''g1'', ''wal'', ''x'', ''c.wal''], File [3] 4)]"

definition ex_fs_cancelled :: fs where
  "ex_fs_cancelled =
     ex_layout ''g1'' [(''0000000000000001.snapshot.gz'', [31, 139, 1], 5)] []
     @ [([''backup'', ''generations'', ''g1'', ''wal'', ''x''], Dir 0 1),
        ([''backup'', ''generations'', ''g1'', ''wal'', ''x'', ''b.wal''], File [2] 3),
        ([''backup'', ''generations'', ''g1'', ''wal'', ''x'', ''c.wal''], File [3] 4),
        ([''backup'', ''generations'', ''g1'', ''wal'', ''x'', ''a.wal.gz''],
         File [31, 139, 1] 10000)]"

text \<open>
  Two generations for \<^verbatim>\<open>EnforceRetention\<close>, at time 10000 with a retention interval of
  3600: \<^verbatim>\<open>g0\<close> has one old snapshot, \<^verbatim>\<open>g1\<close> an old snapshot of index 1 and a recent one
  of index 2, each with WAL files; and the same tree after the call.
\<close>

definition ex_fs_retention :: fs where
  "ex_fs_retention =
     ex_layout ''g0'' [(''0000000000000001.snapshot.gz'', [31, 139, 1], 100)]
       [(''0000000000000001.wal.gz'', [31, 139, 4], 150)]
     @ [([''backup'', ''generations'', ''g1''], Dir 0 1),
        ([''backup'', ''generations'', ''g1'', ''snapshots''], Dir 0 1),
        ([''backup'', ''generations'', ''g1'', ''wal''], Dir 0 1),
        ([''backup'', ''generations'', ''g1'', ''snapshots'', ''0000000000000001.snapshot.gz''],
         File [31, 139, 1] 200),
        ([''backup'', ''generations'', ''g1'', ''snapshots'', ''0000000000000002.snapshot.gz''],
         File [31, 139, 2] 9000),
        ([''backup'', ''generations'', ''g1'', ''wal'', ''0000000000000001.wal.gz''],
         File [31, 139, 5] 300),
        ([''backup'', ''generations'', ''g1'', ''wal'', ''0000000000000002.wal''],
         File [6] 9500)]"

definition ex_fs_retained :: fs where
  "ex_fs_retained =
     [([''backup''], Dir 0 1), ([''backup'', ''generations''], Dir 0 1),
      ([''backup'', ''generations'', ''g1''], Dir 0 1),
      ([''backup'', ''generations'', ''g1'', ''snapshots''], Dir 0 1),
      ([''backup'', ''generations'', ''g1'', ''wal''], Dir 0 1),
      ([''backup'', ''generations'', ''g1'', ''snapshots'', ''0000000000000002.snapshot.gz''],
       File [31, 139, 2] 9000),
      ([''backup'', ''generations'', ''g1'', ''wal'', ''0000000000000002.wal''],
       File [6] 9500)]"

section \<open>Properties\<close>

subsection \<open>Evaluation\<close>

lemmas fs_eval = Stat_def Open_def ReadDir_def child_names_def entry_def file_info_def
  mkdirAll_def open_create_def Remove_def RemoveAll_def Rename_def IsNotExist_def
  path_add_def GenerationDir_def SnapshotDir_def SnapshotPath_def WALDir_def WALPath_def

lemmas ex_eval = ex_layout_def ex_r_def ex_env_def NewFileReplica_def ex_fs_def ex_fs_sealed_def
  ex_fs_snapshots_def

lemma fmt_016x_1: "fmt_016x 1 = ''0000000000000001''"
  by code_simp

lemma fmt_016x_2: "fmt_016x 2 = ''0000000000000002''"
  by code_simp

subsection \<open>Stop on a replica that was never started\<close>

text \<open>
  C10. \<^verbatim>\<open>Stop\<close> on the replica that \<^verbatim>\<open>NewFileReplica\<close> returns (its cancel field
  is the no-op function, its wait group is empty) returns at once, without a panic, and
  leaves the replica as it was; the same holds when \<^verbatim>\<open>MonitorEnabled\<close> has been set to false
  and \<^verbatim>\<open>Start\<close>, which then does nothing, has run.
\<close>

theorem Stop_never_started:
  "Stop (NewFileReplica d n p) = Returns (NewFileReplica d n p)
   \<and> Start ((NewFileReplica d n p)\<lparr>MonitorEnabled := False\<rparr>)
       = Returns ((NewFileReplica d n p)\<lparr>MonitorEnabled := False\<rparr>)
   \<and> Stop ((NewFileReplica d n p)\<lparr>MonitorEnabled := False\<rparr>)
       = Returns ((NewFileReplica d n p)\<lparr>MonitorEnabled := False\<rparr>)"
  by (simp add: Stop_def Start_def NewFileReplica_def)

subsection \<open>The cached position and syncWAL\<close>

text \<open>
  C3. \<^verbatim>\<open>syncWAL\<close> returns no error only when no step on the destination file failed,
  and the cached position is then the position of the reader; whenever it returns an
  error the replica, and so what \<^verbatim>\<open>LastPos\<close> reports, is what it was before the call;
  and a failure of the seek, the copy, the fsync or the close makes it return an error.
\<close>

theorem syncWAL_pos:
  "(fst (syncWAL env r fs) = None \<longrightarrow>
      wal_fault env (LastPos r) = NoFault
      \<and> (\<exists>rd. ShadowWALReader env (LastPos r) = Inr rd
              \<and> LastPos (fst (snd (syncWAL env r fs))) = rd_end rd))
   \<and> (fst (syncWAL env r fs) \<noteq> None \<longrightarrow> fst (snd (syncWAL env r fs)) = r)
   \<and> (wal_fault env (LastPos r) \<noteq> NoFault \<longrightarrow> fst (syncWAL env r fs) \<noteq> None)"
  by (auto simp: syncWAL_def Let_def LastPos_def split: sum.splits fault.splits if_splits)

theorem syncWAL_pos_witness:
  "fst (syncWAL (ex_env\<lparr>ShadowWALReader := (\<lambda>p. Inr ex_rd)\<rparr>) ex_r []) = None
   \<and> LastPos (fst (snd (syncWAL (ex_env\<lparr>ShadowWALReader := (\<lambda>p. Inr ex_rd)\<rparr>) ex_r [])))
       = \<lparr>Generation = ''g1'', Index = 1, Offset = 2\<rparr>
   \<and> fst (syncWAL (ex_env\<lparr>ShadowWALReader := (\<lambda>p. Inr ex_rd), wal_fault := (\<lambda>p. SyncFault)\<rparr>)
             ex_r []) = Some EIO
   \<and> LastPos (fst (snd (syncWAL (ex_env\<lparr>ShadowWALReader := (\<lambda>p. Inr ex_rd),
                                       wal_fault := (\<lambda>p. SyncFault)\<rparr>) ex_r [])))
       = LastPos ex_r"
  using syncWAL_pos [of "ex_env\<lparr>ShadowWALReader := (\<lambda>p. Inr ex_rd)\<rparr>" ex_r "[]"]
    syncWAL_pos [of "ex_env\<lparr>ShadowWALReader := (\<lambda>p. Inr ex_rd), wal_fault := (\<lambda>p. SyncFault)\<rparr>"
                    ex_r "[]"]
  by (simp add: syncWAL_def ex_eval ex_rd_def LastPos_def zero_Pos_def write_at_def
        fs_eval fmt_016x_1)

subsection \<open>A snapshot that exists already\<close>

text \<open>
  C7, amended. When \<^verbatim>\<open>os.Stat\<close> finds something at the snapshot path of the generation
  and index, \<^verbatim>\<open>snapshot\<close> leaves the whole file system as it is, and its result is that
  of the read transaction on the database: success when the transaction begins and
  its query runs, their error otherwise.
\<close>

theorem snapshot_exists:
  "Stat fs (SnapshotPath r generation index) = Inr nd \<Longrightarrow>
     snd (snapshot env r fs generation index) = fs
     \<and> fst (snapshot env r fs generation index)
         = (case db_Begin env of Some e \<Rightarrow> Some e | None \<Rightarrow> db_Exec env)"
  by (auto simp: snapshot_def split: option.splits)

theorem snapshot_exists_witness:
  "Stat (ex_fs_snapshots 5 9)
     (SnapshotPath ex_r ''g1'' 1) = Inr (File [31, 139, 1] 5)
   \<and> snapshot ex_env ex_r (ex_fs_snapshots 5 9)
       ''g1'' 1
     = (None, ex_fs_snapshots 5 9)"
proof -
  have h: "Stat (ex_fs_snapshots 5 9)
             (SnapshotPath ex_r ''g1'' 1) = Inr (File [31, 139, 1] 5)"
    by (simp add: ex_eval fs_eval fmt_016x_1)
  from snapshot_exists [OF h, of ex_env] h show ?thesis
    by (simp add: ex_env_def prod_eq_iff)
qed

text \<open>
  The claim as stated fails: with the snapshot file in place, a transaction that cannot
  begin makes \<^verbatim>\<open>snapshot\<close> return its error.
\<close>

theorem snapshot_tx_counterexample:
  "Stat (ex_fs_snapshots 5 9)
     (SnapshotPath ex_r ''g1'' 1) = Inr (File [31, 139, 1] 5)
   \<and> fst (snapshot (ex_env\<lparr>db_Begin := Some ErrTx\<rparr>) ex_r
            (ex_fs_snapshots 5 9) ''g1'' 1)
       = Some ErrTx"
  by (simp add: ex_eval fs_eval fmt_016x_1 snapshot_def)

subsection \<open>The reader of a WAL file\<close>

text \<open>
  C8, amended. \<^verbatim>\<open>WALReader\<close> returns the open file \<^verbatim>\<open><index>.wal\<close> when it can be
  opened. When that file does not exist and \<^verbatim>\<open><index>.wal.gz\<close> is a file, it returns
  the gzip reader over it if the bytes begin with a gzip header, and fails with the
  error of the gzip reader if they do not. When neither exists it fails with the
  not-exist error.
\<close>

theorem WALReader_cases:
  "(Open fs (WALPath r generation index) = Inr nd \<longrightarrow>
      WALReader env r fs generation index = Inr (FileReader (WALPath r generation index)))
   \<and> (Open fs (WALPath r generation index) = Inl ErrNotExist
      \<and> Open fs (path_add (WALPath r generation index) ''.gz'') = Inr (File bs t)
      \<and> gzip_header env bs \<longrightarrow>
      WALReader env r fs generation index
        = Inr (gzipReadCloser (path_add (WALPath r generation index) ''.gz'')))
   \<and> (Open fs (WALPath r generation index) = Inl ErrNotExist
      \<and> Open fs (path_add (WALPath r generation index) ''.gz'') = Inr (File bs t)
      \<and> \<not> gzip_header env bs \<longrightarrow>
      WALReader env r fs generation index = Inl ErrGzipHeader)
   \<and> (Open fs (WALPath r generation index) = Inl ErrNotExist
      \<and> Open fs (path_add (WALPath r generation index) ''.gz'') = Inl ErrNotExist \<longrightarrow>
      WALReader env r fs generation index = Inl ErrNotExist)"
  by (auto simp: WALReader_def Let_def IsNotExist_def gzip_NewReader_def)

theorem WALReader_cases_witness:
  "WALReader ex_env ex_r (ex_layout ''g1'' [] [(''0000000000000001.wal'', [4, 5], 5)]) ''g1'' 1
     = Inr (FileReader (WALPath ex_r ''g1'' 1))
   \<and> WALReader ex_env ex_r
       (ex_layout ''g1'' [] [(''0000000000000001.wal.gz'', [31, 139, 4, 5], 5)]) ''g1'' 1
     = Inr (gzipReadCloser (path_add (WALPath ex_r ''g1'' 1) ''.gz''))
   \<and> WALReader ex_env ex_r (ex_layout ''g1'' [] []) ''g1'' 1 = Inl ErrNotExist"
  using
    WALReader_cases [of "ex_layout ''g1'' [] [(''0000000000000001.wal'', [4, 5], 5)]"
      ex_r "''g1''" 1 "File [4, 5] 5" ex_env "[]" 0]
    WALReader_cases [of "ex_layout ''g1'' [] [(''0000000000000001.wal.gz'', [31, 139, 4, 5], 5)]"
      ex_r "''g1''" 1 "Dir 0 0" ex_env "[31, 139, 4, 5]" 5]
    WALReader_cases [of "ex_layout ''g1'' [] []" ex_r "''g1''" 1 "Dir 0 0" ex_env "[]" 0]
  by (simp add: ex_eval fs_eval fmt_016x_1 ex_gzip_header_def)

text \<open>
  The claim as stated fails: a file \<^verbatim>\<open><index>.wal.gz\<close> that is alone and does not hold a
  gzip stream gives an error that is not the not-exist error, and no reader.
\<close>

theorem WALReader_gzip_counterexample:
  "Open (ex_layout ''g1'' [] [(''0000000000000001.wal.gz'', [4, 5], 5)]) (WALPath ex_r ''g1'' 1)
     = Inl ErrNotExist
   \<and> Open (ex_layout ''g1'' [] [(''0000000000000001.wal.gz'', [4, 5], 5)])
       (path_add (WALPath ex_r ''g1'' 1) ''.gz'') = Inr (File [4, 5] 5)
   \<and> WALReader ex_env ex_r (ex_layout ''g1'' [] [(''0000000000000001.wal.gz'', [4, 5], 5)])
       ''g1'' 1 = Inl ErrGzipHeader"
  by (simp add: ex_eval fs_eval fmt_016x_1 WALReader_def gzip_NewReader_def
        ex_gzip_header_def)

subsection \<open>Listings\<close>

lemma Parse_snapshot_1:
  "ParseSnapshotPath ''0000000000000001.snapshot.gz'' = Some (1, ''.snapshot.gz'')"
  by code_simp

lemma Parse_snapshot_2:
  "ParseSnapshotPath ''0000000000000002.snapshot.gz'' = Some (2, ''.snapshot.gz'')"
  by code_simp

lemma Parse_wal_1: "ParseWALPath ''0000000000000001.wal'' = Some (1, 0, ''.wal'')"
  by code_simp

lemma Parse_wal_2: "ParseWALPath ''0000000000000002.wal'' = Some (2, 0, ''.wal'')"
  by code_simp

lemma Parse_wal_gz_1: "ParseWALPath ''0000000000000001.wal.gz'' = Some (1, 0, ''.wal.gz'')"
  by code_simp

lemmas parse_eval = snapshot_index_def wal_index_def Parse_snapshot_1 Parse_snapshot_2
  Parse_wal_1 Parse_wal_2 Parse_wal_gz_1

lemma parse_index_nonneg: "parse_index exts s = Some (i, ext) \<Longrightarrow> 0 \<le> i"
  by (auto simp: parse_index_def split: if_splits option.splits)

lemma snapshot_index_nonneg: "snapshot_index fi = Some i \<Longrightarrow> 0 \<le> i"
  by (auto simp: snapshot_index_def ParseSnapshotPath_def dest: parse_index_nonneg)

lemma wal_index_nonneg: "wal_index fi = Some i \<Longrightarrow> 0 \<le> i"
  by (auto simp: wal_index_def ParseWALPath_def split: option.splits dest: parse_index_nonneg)

lemma ReadDir_ModTime_nonneg:
  "ReadDir fs d = Inr fis \<Longrightarrow> fi \<in> set fis \<Longrightarrow> 0 \<le> ModTime fi"
  by (auto simp: ReadDir_def entry_def file_info_def split: sum.splits node.splits option.splits)

lemma map_filter_Nil_iff: "List.map_filter f xs = [] \<longleftrightarrow> (\<forall>x\<in>set xs. f x = None)"
  by (induction xs) (auto split: option.splits)

lemma set_map_filter: "set (List.map_filter f xs) = {y. \<exists>x\<in>set xs. f x = Some y}"
  by (induction xs) (auto split: option.splits)

lemma fold_max_step:
  "\<forall>i\<in>set (List.map_filter P fis). 0 \<le> i \<Longrightarrow> a = - 1 \<or> 0 \<le> a \<Longrightarrow>
   fold (\<lambda>fi. max_step (P fi)) fis a =
     (if List.map_filter P fis = [] then a else max a (Max (set (List.map_filter P fis))))"
proof (induction fis arbitrary: a)
  case Nil
  then show ?case by (simp add:)
next
  case (Cons fi fis)
  show ?case
  proof (cases "P fi")
    case None
    have "max_step (P fi) a = a" by (simp add: None max_step_def)
    moreover have "List.map_filter P (fi # fis) = List.map_filter P fis"
      by (simp add: None)
    ultimately show ?thesis using Cons.IH [of a] Cons.prems by simp
  next
    case (Some i)
    have mf: "List.map_filter P (fi # fis) = i # List.map_filter P fis"
      by (simp add: Some)
    with Cons.prems have i: "0 \<le> i" and rest: "\<forall>i\<in>set (List.map_filter P fis). 0 \<le> i"
      by simp_all
    have a': "max_step (Some i) a = max a i"
      using Cons.prems(2) i by (auto simp: max_step_def)
    have "max a i = - 1 \<or> 0 \<le> max a i" using i by auto
    from Cons.IH [OF rest this]
    show ?thesis by (cases "List.map_filter P fis = []") (simp_all add: Some a' max.assoc)
  qed
qed

lemma fold_max_step_init:
  assumes "\<forall>i\<in>set (List.map_filter P fis). 0 \<le> i"
  shows "fold (\<lambda>fi. max_step (P fi)) fis (- 1) =
     (if List.map_filter P fis = [] then - 1 else Max (set (List.map_filter P fis)))"
proof -
  have "List.map_filter P fis \<noteq> [] \<Longrightarrow> 0 \<le> Max (set (List.map_filter P fis))"
  proof -
    assume ne: "List.map_filter P fis \<noteq> []"
    then have "Max (set (List.map_filter P fis)) \<in> set (List.map_filter P fis)"
      by (intro Max_in) auto
    then show ?thesis using assms by auto
  qed
  then show ?thesis using fold_max_step [of P fis "- 1", OF assms] by auto
qed

lemma snapshot_indexes_nonneg: "\<forall>i\<in>set (List.map_filter snapshot_index fis). 0 \<le> i"
  by (auto simp: set_map_filter dest: snapshot_index_nonneg)

lemma wal_indexes_nonneg: "\<forall>i\<in>set (List.map_filter wal_index fis). 0 \<le> i"
  by (auto simp: set_map_filter dest: wal_index_nonneg)

lemma MaxSnapshotIndex_eq:
  "MaxSnapshotIndex r fs g =
     (case ReadDir fs (SnapshotDir r g) of
        Inl e \<Rightarrow> Inl e
      | Inr fis \<Rightarrow>
          (if List.map_filter snapshot_index fis = [] then Inl NoSnapshotsFound
           else Inr (Max (set (List.map_filter snapshot_index fis)))))"
proof (cases "ReadDir fs (SnapshotDir r g)")
  case (Inl e)
  then show ?thesis by (simp add: MaxSnapshotIndex_def)
next
  case (Inr fis)
  have "List.map_filter snapshot_index fis \<noteq> [] \<Longrightarrow>
          Max (set (List.map_filter snapshot_index fis)) \<noteq> - 1"
  proof
    assume ne: "List.map_filter snapshot_index fis \<noteq> []"
      and m: "Max (set (List.map_filter snapshot_index fis)) = - 1"
    from ne have "Max (set (List.map_filter snapshot_index fis))
                    \<in> set (List.map_filter snapshot_index fis)"
      by (intro Max_in) auto
    with snapshot_indexes_nonneg [of fis] m show False by auto
  qed
  then show ?thesis
    by (simp add: MaxSnapshotIndex_def Inr Let_def
          fold_max_step_init [OF snapshot_indexes_nonneg])
qed

subsection \<open>The computed position\<close>

text \<open>
  C4, amended. \<^verbatim>\<open>CalcPos\<close> fails with the error of reading the snapshot directory
  when that fails (the not-exist error when the directory is missing), and with the
  error "no snapshots found" when the directory holds no valid snapshot filename.
  Otherwise, if the WAL directory does not exist or holds no valid WAL filename, it
  returns the generation, the highest snapshot index and offset 0; otherwise it looks
  at the uncompressed file \<^verbatim>\<open><index>.wal\<close> of the highest WAL index (of compressed and
  uncompressed names): it returns the generation, that index and the size of that file,
  or the error of \<^verbatim>\<open>os.Stat\<close> when that file is not there.
\<close>

theorem CalcPos_cases:
  "(ReadDir fs (SnapshotDir r g) = Inl e \<longrightarrow> CalcPos r fs g = Inl e)
   \<and> (ReadDir fs (SnapshotDir r g) = Inr sfis \<and> List.map_filter snapshot_index sfis = [] \<longrightarrow>
        CalcPos r fs g = Inl NoSnapshotsFound)
   \<and> (ReadDir fs (SnapshotDir r g) = Inr sfis \<and> List.map_filter snapshot_index sfis \<noteq> [] \<longrightarrow>
        (ReadDir fs (WALDir r g) = Inl ErrNotExist
           \<or> ReadDir fs (WALDir r g) = Inr wfis \<and> List.map_filter wal_index wfis = [] \<longrightarrow>
         CalcPos r fs g
           = Inr \<lparr>Generation = g, Index = Max (set (List.map_filter snapshot_index sfis)),
                  Offset = 0\<rparr>)
        \<and> (ReadDir fs (WALDir r g) = Inr wfis \<and> List.map_filter wal_index wfis \<noteq> [] \<longrightarrow>
             (Stat fs (WALPath r g (Max (set (List.map_filter wal_index wfis)))) = Inr nd \<longrightarrow>
                CalcPos r fs g
                  = Inr \<lparr>Generation = g, Index = Max (set (List.map_filter wal_index wfis)),
                         Offset = node_size nd\<rparr>)
             \<and> (Stat fs (WALPath r g (Max (set (List.map_filter wal_index wfis)))) = Inl e' \<longrightarrow>
                  CalcPos r fs g = Inl e')))"
proof -
  have wne: "List.map_filter wal_index wfis \<noteq> [] \<Longrightarrow>
          Max (set (List.map_filter wal_index wfis)) \<noteq> - 1"
  proof
    assume ne: "List.map_filter wal_index wfis \<noteq> []"
      and m: "Max (set (List.map_filter wal_index wfis)) = - 1"
    from ne have "Max (set (List.map_filter wal_index wfis))
                    \<in> set (List.map_filter wal_index wfis)"
      by (intro Max_in) auto
    with wal_indexes_nonneg [of wfis] m show False by auto
  qed
  show ?thesis
    using wne
    by (auto simp: CalcPos_def MaxSnapshotIndex_eq Let_def IsNotExist_def
          fold_max_step_init [OF wal_indexes_nonneg])
qed


theorem CalcPos_cases_witness:
  "CalcPos ex_r ex_fs ''g1'' = Inr \<lparr>Generation = ''g1'', Index = 2, Offset = 2\<rparr>
   \<and> CalcPos ex_r (ex_fs_snapshots 5 9) ''g1'' = Inr \<lparr>Generation = ''g1'', Index = 2, Offset = 0\<rparr>
   \<and> CalcPos ex_r (ex_layout ''g1'' [] []) ''g1'' = Inl NoSnapshotsFound
   \<and> CalcPos ex_r ex_fs_sealed ''g1'' = Inl ErrNotExist"
proof -
  have s1: "ReadDir ex_fs (SnapshotDir ex_r ''g1'')
              = Inr [file_info ''0000000000000001.snapshot.gz'' (File [31, 139, 1] 5)]"
    and w1: "ReadDir ex_fs (WALDir ex_r ''g1'')
              = Inr [file_info ''0000000000000001.wal.gz'' (File [31, 139, 4] 6),
                     file_info ''0000000000000002.wal'' (File [4, 5] 7)]"
    and st1: "Stat ex_fs (WALPath ex_r ''g1'' 2) = Inr (File [4, 5] 7)"
    and s2: "ReadDir (ex_fs_snapshots 5 9) (SnapshotDir ex_r ''g1'')
              = Inr [file_info ''0000000000000001.snapshot.gz'' (File [31, 139, 1] 5),
                     file_info ''0000000000000002.snapshot.gz'' (File [31, 139, 2] 9)]"
    and w2: "ReadDir (ex_fs_snapshots 5 9) (WALDir ex_r ''g1'') = Inr []"
    and s3: "ReadDir (ex_layout ''g1'' [] []) (SnapshotDir ex_r ''g1'') = Inr []"
    and s4: "ReadDir ex_fs_sealed (SnapshotDir ex_r ''g1'')
              = Inr [file_info ''0000000000000001.snapshot.gz'' (File [31, 139, 1] 5)]"
    and w4: "ReadDir ex_fs_sealed (WALDir ex_r ''g1'')
              = Inr [file_info ''0000000000000001.wal.gz'' (File [31, 139, 4] 6)]"
    and st4: "Stat ex_fs_sealed (WALPath ex_r ''g1'' 1) = Inl ErrNotExist"
    by (simp_all add: ex_eval fs_eval fmt_016x_1 fmt_016x_2)
  from
    CalcPos_cases [where fs = ex_fs and r = ex_r and g = "''g1''"
      and sfis = "[file_info ''0000000000000001.snapshot.gz'' (File [31, 139, 1] 5)]"
      and wfis = "[file_info ''0000000000000001.wal.gz'' (File [31, 139, 4] 6),
                   file_info ''0000000000000002.wal'' (File [4, 5] 7)]"
      and nd = "File [4, 5] 7"]
    CalcPos_cases [where fs = "ex_fs_snapshots 5 9" and r = ex_r and g = "''g1''"
      and sfis = "[file_info ''0000000000000001.snapshot.gz'' (File [31, 139, 1] 5),
                   file_info ''0000000000000002.snapshot.gz'' (File [31, 139, 2] 9)]"
      and wfis = "[]"]
    CalcPos_cases [where fs = "ex_layout ''g1'' [] []" and r = ex_r and g = "''g1''"
      and sfis = "[]"]
    CalcPos_cases [where fs = ex_fs_sealed and r = ex_r and g = "''g1''"
      and sfis = "[file_info ''0000000000000001.snapshot.gz'' (File [31, 139, 1] 5)]"
      and wfis = "[file_info ''0000000000000001.wal.gz'' (File [31, 139, 4] 6)]"
      and e' = ErrNotExist]
  show ?thesis
    by (simp add: s1 w1 st1 s2 w2 s3 s4 w4 st4 file_info_def parse_eval)
qed

text \<open>
  The claim as stated fails: when the highest WAL index has only its compressed file,
  \<^verbatim>\<open>CalcPos\<close> returns an error and no position; and for a generation without a snapshot
  directory the error is the not-exist error of the directory.
\<close>

theorem CalcPos_counterexample:
  "MaxSnapshotIndex ex_r ex_fs_sealed ''g1'' = Inr 1
   \<and> ReadDir ex_fs_sealed (WALDir ex_r ''g1'')
       = Inr [file_info ''0000000000000001.wal.gz'' (File [31, 139, 4] 6)]
   \<and> wal_index (file_info ''0000000000000001.wal.gz'' (File [31, 139, 4] 6)) = Some 1
   \<and> CalcPos ex_r ex_fs_sealed ''g1'' = Inl ErrNotExist
   \<and> CalcPos ex_r [] ''g1'' = Inl ErrNotExist"
  by (simp add: ex_eval fs_eval parse_eval fmt_016x_1 CalcPos_def MaxSnapshotIndex_def
        max_step_def)

subsection \<open>The WAL index at a time\<close>

lemma WALIndexAt_step_eq:
  "WALIndexAt_step maxIndex ts fi index =
     (case WALIndexAt_candidate maxIndex ts fi of None \<Rightarrow> index | Some idx \<Rightarrow> max index idx)"
  by (auto simp: WALIndexAt_step_def WALIndexAt_candidate_def split: option.splits)

lemma fold_WALIndexAt_step:
  "fold (WALIndexAt_step maxIndex ts) fis a
     = Max (set (a # List.map_filter (WALIndexAt_candidate maxIndex ts) fis))"
proof (induction fis arbitrary: a)
  case Nil
  then show ?case by (simp add:)
next
  case (Cons fi fis)
  show ?case
  proof (cases "WALIndexAt_candidate maxIndex ts fi")
    case None
    then show ?thesis using Cons.IH [of a] by (simp add: WALIndexAt_step_eq)
  next
    case (Some i)
    have "Max (insert (max a i) (set (List.map_filter (WALIndexAt_candidate maxIndex ts) fis)))
            = Max (insert a (insert i
                (set (List.map_filter (WALIndexAt_candidate maxIndex ts) fis))))"
      by (cases "List.map_filter (WALIndexAt_candidate maxIndex ts) fis = []")
        (simp_all add: max.assoc)
    then show ?thesis using Cons.IH [of "max a i"] by (simp add: WALIndexAt_step_eq Some)
  qed
qed

lemma WALIndexAt_candidate_le:
  "i \<in> set (List.map_filter (WALIndexAt_candidate maxIndex ts) fis) \<Longrightarrow> 0 \<le> i \<and> i \<le> maxIndex"
  by (auto simp: set_map_filter WALIndexAt_candidate_def
      split: option.splits if_splits dest: wal_index_nonneg)

text \<open>
  C5, amended. When the WAL directory does not exist, \<^verbatim>\<open>WALIndexAt\<close> returns index 0
  and no error. When it exists and \<open>maxIndex\<close> is not the sentinel: if a WAL file with
  index \<open>maxIndex\<close> passes the timestamp filter, it returns \<open>maxIndex\<close> and no error; if none
  does and \<open>maxIndex\<close> is not 0, it fails with the index-not-found error, which reports
  the highest index that passed the filters (0 when none did).
\<close>

theorem WALIndexAt_cases:
  "(ReadDir fs (WALDir r g) = Inl ErrNotExist \<longrightarrow> WALIndexAt r fs g maxIndex ts = (0, None))
   \<and> (ReadDir fs (WALDir r g) = Inr fis \<and> maxIndex \<noteq> MaxInt64
        \<and> maxIndex \<in> set (List.map_filter (WALIndexAt_candidate maxIndex ts) fis) \<longrightarrow>
      WALIndexAt r fs g maxIndex ts = (maxIndex, None))
   \<and> (ReadDir fs (WALDir r g) = Inr fis \<and> maxIndex \<noteq> MaxInt64 \<and> maxIndex \<noteq> 0
        \<and> maxIndex \<notin> set (List.map_filter (WALIndexAt_candidate maxIndex ts) fis) \<longrightarrow>
      WALIndexAt r fs g maxIndex ts
        = (Max (set (0 # List.map_filter (WALIndexAt_candidate maxIndex ts) fis)),
           Some (IndexNotFound maxIndex g
                   (Max (set (0 # List.map_filter (WALIndexAt_candidate maxIndex ts) fis))))))"
proof -
  let ?c = "List.map_filter (WALIndexAt_candidate maxIndex ts) fis"
  have in_set: "Max (set (0 # ?c)) \<in> set (0 # ?c)"
    by (intro Max_in) auto
  have hit: "maxIndex \<in> set ?c \<Longrightarrow> Max (set (0 # ?c)) = maxIndex"
  proof -
    assume m: "maxIndex \<in> set ?c"
    have "\<forall>i\<in>set (0 # ?c). i \<le> maxIndex"
      using WALIndexAt_candidate_le [OF m] WALIndexAt_candidate_le [of _ maxIndex ts fis] by auto
    then have "Max (set (0 # ?c)) \<le> maxIndex" by (subst Max_le_iff) auto
    moreover have "maxIndex \<le> Max (set (0 # ?c))" using m by (intro Max_ge) auto
    ultimately show ?thesis by (rule order.antisym)
  qed
  have miss: "maxIndex \<notin> set ?c \<Longrightarrow> maxIndex \<noteq> 0 \<Longrightarrow> Max (set (0 # ?c)) \<noteq> maxIndex"
    using in_set by auto
  show ?thesis
    using hit miss
    by (auto simp: WALIndexAt_def IsNotExist_def Let_def fold_WALIndexAt_step)
qed

theorem WALIndexAt_cases_witness:
  "WALIndexAt ex_r ex_fs ''g1'' 2 0 = (2, None)
   \<and> WALIndexAt ex_r ex_fs ''g1'' 5 0 = (2, Some (IndexNotFound 5 ''g1'' 2))
   \<and> WALIndexAt ex_r [] ''g1'' 5 0 = (0, None)"
proof -
  have w1: "ReadDir ex_fs (WALDir ex_r ''g1'')
              = Inr [file_info ''0000000000000001.wal.gz'' (File [31, 139, 4] 6),
                     file_info ''0000000000000002.wal'' (File [4, 5] 7)]"
    and w2: "ReadDir [] (WALDir ex_r ''g1'') = Inl ErrNotExist"
    by (simp_all add: ex_eval fs_eval)
  from
    WALIndexAt_cases [where fs = ex_fs and r = ex_r and g = "''g1''" and maxIndex = 2 and ts = 0
      and fis = "[file_info ''0000000000000001.wal.gz'' (File [31, 139, 4] 6),
                  file_info ''0000000000000002.wal'' (File [4, 5] 7)]"]
    WALIndexAt_cases [where fs = ex_fs and r = ex_r and g = "''g1''" and maxIndex = 5 and ts = 0
      and fis = "[file_info ''0000000000000001.wal.gz'' (File [31, 139, 4] 6),
                  file_info ''0000000000000002.wal'' (File [4, 5] 7)]"]
    WALIndexAt_cases [where fs = "[]" and r = ex_r and g = "''g1''" and maxIndex = 5 and ts = 0]
  show ?thesis
    by (simp add: w1 w2 file_info_def parse_eval MaxInt64_def WALIndexAt_candidate_def
         )
qed

text \<open>
  The claim as stated fails: without a WAL directory no index qualifies, and
  \<^verbatim>\<open>WALIndexAt\<close> returns no error; nor does it for \<open>maxIndex\<close> 0 and an empty directory.
\<close>

theorem WALIndexAt_counterexample:
  "ReadDir [] (WALDir ex_r ''g1'') = Inl ErrNotExist
   \<and> 5 \<noteq> MaxInt64
   \<and> WALIndexAt ex_r [] ''g1'' 5 0 = (0, None)
   \<and> ReadDir (ex_layout ''g1'' [] []) (WALDir ex_r ''g1'') = Inr []
   \<and> WALIndexAt ex_r (ex_layout ''g1'' [] []) ''g1'' 0 0 = (0, None)"
  by (simp add: ex_eval fs_eval MaxInt64_def WALIndexAt_def)

subsection \<open>The snapshot index at the zero time\<close>

lemma SnapshotIndexAt_inv_step:
  assumes "SnapshotIndexAt_inv seen st" "\<forall>fi'\<in>set seen. 0 \<le> ModTime fi'" "0 \<le> ModTime fi"
  shows "SnapshotIndexAt_inv (seen @ [fi]) (SnapshotIndexAt_step 0 fi st)"
proof (cases "snapshot_index fi")
  case None
  then have "List.map_filter snapshot_index (seen @ [fi]) = List.map_filter snapshot_index seen"
    by (simp add: List.map_filter_def)
  with assms(1) None show ?thesis
    by (auto simp: SnapshotIndexAt_inv_def SnapshotIndexAt_step_def)
next
  case (Some idx)
  then have ne: "List.map_filter snapshot_index (seen @ [fi]) \<noteq> []"
    by (simp add: List.map_filter_def)
  show ?thesis
  proof (cases "List.map_filter snapshot_index seen = []")
    case True
    then have "\<forall>fi'\<in>set seen. snapshot_index fi' = None" by (simp add: map_filter_Nil_iff)
    with True assms(1) Some ne show ?thesis
      by (auto simp: SnapshotIndexAt_inv_def SnapshotIndexAt_step_def)
  next
    case False
    with assms(1) obtain fi0 where fi0: "fi0 \<in> set seen" "snapshot_index fi0 = Some (fst st)"
      "ModTime fi0 = snd st"
      "\<forall>fi'\<in>set seen. snapshot_index fi' \<noteq> None \<longrightarrow> ModTime fi' \<le> snd st"
      by (auto simp: SnapshotIndexAt_inv_def)
    have nonneg: "0 \<le> snd st" using fi0(1,3) assms(2) by auto
    show ?thesis
    proof (cases "snd st = 0 \<or> ModTime fi > snd st")
      case True
      then have st': "SnapshotIndexAt_step 0 fi st = (idx, ModTime fi)"
        by (simp add: SnapshotIndexAt_step_def Some)
      have "\<forall>fi'\<in>set seen. snapshot_index fi' \<noteq> None \<longrightarrow> ModTime fi' \<le> ModTime fi"
        using True fi0(4) assms(3) by fastforce
      then show ?thesis using ne Some by (auto simp: SnapshotIndexAt_inv_def st')
    next
      case False
      then have st': "SnapshotIndexAt_step 0 fi st = st"
        by (simp add: SnapshotIndexAt_step_def Some)
      show ?thesis using ne fi0 False by (auto simp: SnapshotIndexAt_inv_def st')
    qed
  qed
qed

lemma SnapshotIndexAt_inv_fold:
  "SnapshotIndexAt_inv seen st \<Longrightarrow> \<forall>fi\<in>set (seen @ fis). 0 \<le> ModTime fi \<Longrightarrow>
   SnapshotIndexAt_inv (seen @ fis) (fold (SnapshotIndexAt_step 0) fis st)"
proof (induction fis arbitrary: seen st)
  case Nil
  then show ?case by simp
next
  case (Cons fi fis)
  have "SnapshotIndexAt_inv (seen @ [fi]) (SnapshotIndexAt_step 0 fi st)"
    using Cons.prems by (intro SnapshotIndexAt_inv_step) auto
  from Cons.IH [OF this] Cons.prems(2) show ?case by simp
qed

lemma set_snapshot_infos:
  "set (snapshot_infos r g fis) =
     {\<lparr>sn_Name = Name fi, sn_Replica = Name_of r, sn_Generation = g, sn_Index = idx,
       sn_Size = Size fi, sn_CreatedAt = ModTime fi\<rparr> | fi idx.
      fi \<in> set fis \<and> snapshot_index fi = Some idx}"
  by (auto simp: snapshot_infos_def split: option.splits)

lemma snapshot_infos_Nil_iff:
  "snapshot_infos r g fis = [] \<longleftrightarrow> List.map_filter snapshot_index fis = []"
  by (auto simp: snapshot_infos_def map_filter_Nil_iff split: option.splits)

text \<open>
  C6. When the snapshot directory of the generation lists at least one snapshot,
  \<^verbatim>\<open>SnapshotIndexAt\<close> with the zero timestamp returns the index of one of the entries
  \<^verbatim>\<open>Snapshots\<close> builds for the generation, and no entry of the generation has a later
  \<^verbatim>\<open>CreatedAt\<close>. When the directory is missing or lists no snapshot, it fails with
  \<^verbatim>\<open>ErrNoSnapshots\<close>.
\<close>

theorem SnapshotIndexAt_latest:
  "(ReadDir fs (SnapshotDir r g) = Inr fis \<and> snapshot_infos r g fis \<noteq> [] \<longrightarrow>
      (\<exists>s\<in>set (snapshot_infos r g fis).
         SnapshotIndexAt r fs g 0 = Inr (sn_Index s)
         \<and> (\<forall>s'\<in>set (snapshot_infos r g fis). sn_CreatedAt s' \<le> sn_CreatedAt s)))
   \<and> (ReadDir fs (SnapshotDir r g) = Inl ErrNotExist
        \<or> ReadDir fs (SnapshotDir r g) = Inr fis \<and> snapshot_infos r g fis = [] \<longrightarrow>
      SnapshotIndexAt r fs g 0 = Inl ErrNoSnapshots)"
proof (intro conjI impI)
  assume "ReadDir fs (SnapshotDir r g) = Inl ErrNotExist
        \<or> ReadDir fs (SnapshotDir r g) = Inr fis \<and> snapshot_infos r g fis = []"
  then show "SnapshotIndexAt r fs g 0 = Inl ErrNoSnapshots"
  proof
    assume "ReadDir fs (SnapshotDir r g) = Inl ErrNotExist"
    then show ?thesis by (simp add: SnapshotIndexAt_def IsNotExist_def)
  next
    assume a: "ReadDir fs (SnapshotDir r g) = Inr fis \<and> snapshot_infos r g fis = []"
    then have nonneg: "\<forall>fi\<in>set ([] @ fis). 0 \<le> ModTime fi"
      by (auto dest: ReadDir_ModTime_nonneg)
    have "SnapshotIndexAt_inv [] (- 1, 0)"
      by (simp add: SnapshotIndexAt_inv_def)
    from SnapshotIndexAt_inv_fold [OF this nonneg] a
    have "fold (SnapshotIndexAt_step 0) fis (- 1, 0) = (- 1, 0)"
      by (simp add: SnapshotIndexAt_inv_def snapshot_infos_Nil_iff)
    with a show ?thesis by (simp add: SnapshotIndexAt_def)
  qed
next
  assume a: "ReadDir fs (SnapshotDir r g) = Inr fis \<and> snapshot_infos r g fis \<noteq> []"
  then have nonneg: "\<forall>fi\<in>set ([] @ fis). 0 \<le> ModTime fi"
    by (auto dest: ReadDir_ModTime_nonneg)
  let ?st = "fold (SnapshotIndexAt_step 0) fis (- 1, 0)"
  have "SnapshotIndexAt_inv [] (- 1, 0)"
    by (simp add: SnapshotIndexAt_inv_def)
  from SnapshotIndexAt_inv_fold [OF this nonneg] a
  obtain fi where fi: "fi \<in> set fis" "snapshot_index fi = Some (fst ?st)"
    "ModTime fi = snd ?st"
    "\<forall>fi'\<in>set fis. snapshot_index fi' \<noteq> None \<longrightarrow> ModTime fi' \<le> snd ?st"
    by (auto simp: SnapshotIndexAt_inv_def snapshot_infos_Nil_iff)
  let ?s = "\<lparr>sn_Name = Name fi, sn_Replica = Name_of r, sn_Generation = g,
             sn_Index = fst ?st, sn_Size = Size fi, sn_CreatedAt = ModTime fi\<rparr>"
  have mem: "?s \<in> set (snapshot_infos r g fis)"
    using fi(1,2) by (auto simp: set_snapshot_infos)
  have "fst ?st \<noteq> - 1" using snapshot_index_nonneg [OF fi(2)] by simp
  then have res: "SnapshotIndexAt r fs g 0 = Inr (sn_Index ?s)"
    using a by (simp add: SnapshotIndexAt_def Let_def)
  have "\<forall>s'\<in>set (snapshot_infos r g fis). sn_CreatedAt s' \<le> sn_CreatedAt ?s"
    using fi(3,4) by (auto simp: set_snapshot_infos)
  with mem res
  show "\<exists>s\<in>set (snapshot_infos r g fis).
         SnapshotIndexAt r fs g 0 = Inr (sn_Index s)
         \<and> (\<forall>s'\<in>set (snapshot_infos r g fis). sn_CreatedAt s' \<le> sn_CreatedAt s)"
    by blast
qed

theorem SnapshotIndexAt_latest_witness:
  "SnapshotIndexAt ex_r (ex_fs_snapshots 5 9) ''g1'' 0 = Inr 2
   \<and> SnapshotIndexAt ex_r (ex_fs_snapshots 9 5) ''g1'' 0 = Inr 1
   \<and> SnapshotIndexAt ex_r (ex_layout ''g1'' [] []) ''g1'' 0 = Inl ErrNoSnapshots
   \<and> SnapshotIndexAt ex_r [] ''g1'' 0 = Inl ErrNoSnapshots"
proof -
  have s: "ReadDir (ex_fs_snapshots t1 t2) (SnapshotDir ex_r ''g1'')
              = Inr [file_info ''0000000000000001.snapshot.gz'' (File [31, 139, 1] t1),
                     file_info ''0000000000000002.snapshot.gz'' (File [31, 139, 2] t2)]"
    for t1 t2
    by (simp add: ex_eval fs_eval)
  have e: "ReadDir (ex_layout ''g1'' [] []) (SnapshotDir ex_r ''g1'') = Inr []"
    and n: "ReadDir [] (SnapshotDir ex_r ''g1'') = Inl ErrNotExist"
    by (simp_all add: ex_eval fs_eval)
  from
    SnapshotIndexAt_latest [where fs = "ex_fs_snapshots 5 9" and r = ex_r and g = "''g1''"
      and fis = "[file_info ''0000000000000001.snapshot.gz'' (File [31, 139, 1] 5),
                  file_info ''0000000000000002.snapshot.gz'' (File [31, 139, 2] 9)]"]
    SnapshotIndexAt_latest [where fs = "ex_fs_snapshots 9 5" and r = ex_r and g = "''g1''"
      and fis = "[file_info ''0000000000000001.snapshot.gz'' (File [31, 139, 1] 9),
                  file_info ''0000000000000002.snapshot.gz'' (File [31, 139, 2] 5)]"]
    SnapshotIndexAt_latest [where fs = "ex_layout ''g1'' [] []" and r = ex_r and g = "''g1''"
      and fis = "[]"]
    SnapshotIndexAt_latest [where fs = "[]" and r = ex_r and g = "''g1''"]
  show ?thesis
    by (simp add: s e n file_info_def parse_eval snapshot_infos_def)
qed

subsection \<open>Frames of the file operations\<close>

text \<open>
  What \<^verbatim>\<open>os.Stat\<close> and \<^verbatim>\<open>ioutil.ReadDir\<close> read of the file system, and which paths the
  writing operations leave as they are.
\<close>

lemma walk_cong:
  "(\<And>q. prefix q (d @ cs) \<Longrightarrow> length d < length q \<Longrightarrow> map_of fs' q = map_of fs q) \<Longrightarrow>
   walk fs' d cs = walk fs d cs"
proof (induction fs d cs rule: walk.induct)
  case (1 fs d)
  then show ?case by simp
next
  case (2 fs d c)
  then have "map_of fs' (d @ [c]) = map_of fs (d @ [c])" by simp
  then show ?case by simp
next
  case (3 fs d c c' cs)
  have eq: "map_of fs' (d @ [c]) = map_of fs (d @ [c])"
    using "3.prems" [of "d @ [c]"] by simp
  show ?case
  proof (cases "map_of fs (d @ [c])")
    case None
    with eq show ?thesis by simp
  next
    case (Some nd)
    show ?thesis
    proof (cases nd)
      case (File bs t)
      with Some eq show ?thesis by simp
    next
      case (Dir sz t)
      have "walk fs' (d @ [c]) (c' # cs) = walk fs (d @ [c]) (c' # cs)"
        using "3.IH" [OF Some Dir] "3.prems" by simp
      with Some Dir eq show ?thesis by simp
    qed
  qed
qed

lemma Stat_cong:
  "(\<And>q. prefix q p \<Longrightarrow> q \<noteq> [] \<Longrightarrow> map_of fs' q = map_of fs q) \<Longrightarrow> Stat fs' p = Stat fs p"
  unfolding Stat_def by (rule walk_cong) auto

lemma walk_Inr:
  "walk fs d cs = Inr nd \<Longrightarrow> cs \<noteq> [] \<Longrightarrow> map_of fs (d @ cs) = Some nd"
  by (induction fs d cs rule: walk.induct) (auto split: option.splits node.splits)

lemma Stat_Inr: "Stat fs p = Inr nd \<Longrightarrow> p \<noteq> [] \<Longrightarrow> map_of fs p = Some nd"
  unfolding Stat_def using walk_Inr [of fs "[]" p nd] by simp

lemma set_child_names: "set (child_names fs d) = {n. map_of fs (d @ [n]) \<noteq> None}"
proof -
  have "set (child_names fs d) = {last q | q. q \<in> fst ` set fs \<and> q \<noteq> [] \<and> butlast q = d}"
    by (auto simp: child_names_def)
  also have "\<dots> = {n. d @ [n] \<in> fst ` set fs}"
  proof (intro set_eqI iffI)
    fix n assume "n \<in> {last q | q. q \<in> fst ` set fs \<and> q \<noteq> [] \<and> butlast q = d}"
    then obtain q where q: "n = last q" "q \<in> fst ` set fs" "q \<noteq> []" "butlast q = d" by blast
    then have "d @ [n] = q" by (metis append_butlast_last_id)
    with q(2) show "n \<in> {n. d @ [n] \<in> fst ` set fs}" by simp
  next
    fix n assume "n \<in> {n. d @ [n] \<in> fst ` set fs}"
    then have "d @ [n] \<in> fst ` set fs" by simp
    then show "n \<in> {last q | q. q \<in> fst ` set fs \<and> q \<noteq> [] \<and> butlast q = d}"
      by (intro CollectI exI [of _ "d @ [n]"]) simp
  qed
  also have "\<dots> = {n. map_of fs (d @ [n]) \<noteq> None}"
    by (simp add: map_of_eq_None_iff)
  finally show ?thesis .
qed

lemma child_names_sorted_distinct: "sorted (child_names fs d) \<and> distinct (child_names fs d)"
  by (simp add: child_names_def)

lemma child_names_cong:
  "(\<And>n. (map_of fs' (d @ [n]) = None) = (map_of fs (d @ [n]) = None)) \<Longrightarrow>
   child_names fs' d = child_names fs d"
  by (rule sorted_distinct_set_unique)
    (simp_all add: child_names_sorted_distinct set_child_names)

lemma ReadDir_cong:
  assumes "\<And>q. prefix q d \<Longrightarrow> q \<noteq> [] \<Longrightarrow> map_of fs' q = map_of fs q"
    and "\<And>n. map_of fs' (d @ [n]) = map_of fs (d @ [n])"
  shows "ReadDir fs' d = ReadDir fs d"
proof -
  have "Stat fs' d = Stat fs d" using assms(1) by (rule Stat_cong)
  moreover have "child_names fs' d = child_names fs d"
    by (rule child_names_cong) (simp add: assms(2))
  moreover have "entry fs' d = entry fs d"
    by (rule ext) (simp add: entry_def assms(2))
  ultimately show ?thesis by (simp add: ReadDir_def cong: sum.case_cong node.case_cong)
qed

lemma ReadDir_names: "ReadDir fs d = Inr fis \<Longrightarrow> map Name fis = child_names fs d"
proof -
  have "map Name (concat (map (entry fs d) ns)) = ns" if "\<forall>n\<in>set ns. map_of fs (d @ [n]) \<noteq> None" for ns
    using that by (induction ns) (auto simp: entry_def file_info_def)
  from this [of "child_names fs d"] show "ReadDir fs d = Inr fis \<Longrightarrow> map Name fis = child_names fs d"
    by (auto simp: ReadDir_def set_child_names split: sum.splits node.splits)
qed

lemma ReadDir_distinct: "ReadDir fs d = Inr fis \<Longrightarrow> distinct (map Name fis)"
  by (simp add: ReadDir_names child_names_sorted_distinct)

lemma set_entry:
  "set (entry fs d n) = {fi. \<exists>nd. map_of fs (d @ [n]) = Some nd \<and> fi = file_info n nd}"
  by (cases "map_of fs (d @ [n])") (auto simp: entry_def)

lemma Name_file_info [simp]: "Name (file_info n nd) = n"
  by (simp add: file_info_def)

lemma ReadDir_mem:
  assumes "ReadDir fs d = Inr fis"
  shows "fi \<in> set fis \<longleftrightarrow>
     (\<exists>nd. map_of fs (d @ [Name fi]) = Some nd \<and> fi = file_info (Name fi) nd)"
proof -
  from assms have fis: "fis = concat (map (entry fs d) (child_names fs d))"
    by (auto simp: ReadDir_def split: sum.splits node.splits)
  have "fi \<in> set fis \<longleftrightarrow> (\<exists>n. map_of fs (d @ [n]) \<noteq> None \<and> fi \<in> set (entry fs d n))"
    by (auto simp: fis set_child_names)
  also have "\<dots> \<longleftrightarrow> (\<exists>n nd. map_of fs (d @ [n]) = Some nd \<and> fi = file_info n nd)"
    by (auto simp: set_entry)
  also have "\<dots> \<longleftrightarrow> (\<exists>nd. map_of fs (d @ [Name fi]) = Some nd \<and> fi = file_info (Name fi) nd)"
    by auto
  finally show ?thesis .
qed

lemma Remove_map_of: "Remove fs p = Inr fs' \<Longrightarrow> map_of fs' = (map_of fs)(p := None)"
  by (auto simp: Remove_def delete_conv' split: if_splits sum.splits node.splits)

lemma map_of_filter_fst:
  "map_of (filter (\<lambda>(k, v). P k) xs) k = (if P k then map_of xs k else None)"
  by (induction xs) auto

lemma RemoveAll_map_of:
  "RemoveAll fs p = Inr fs' \<Longrightarrow>
   fs' = fs \<and> Stat fs p = Inl ErrNotExist
   \<or> (\<exists>nd. Stat fs p = Inr nd) \<and> (\<forall>q. map_of fs' q = (if prefix p q then None else map_of fs q))"
  by (auto simp: RemoveAll_def IsNotExist_def map_of_filter_fst split: if_splits sum.splits)

lemma open_create_map_of:
  "open_create trunc fs p t = Inr fs' \<Longrightarrow> q \<noteq> p \<Longrightarrow> map_of fs' q = map_of fs q"
  by (auto simp: open_create_def update_conv' split: if_splits sum.splits node.splits option.splits)

lemma Rename_map_of:
  "Rename fs src d = Inr fs' \<Longrightarrow> q \<noteq> src \<Longrightarrow> q \<noteq> d \<Longrightarrow> map_of fs' q = map_of fs q"
  by (auto simp: Rename_def update_conv' delete_conv'
      split: if_splits sum.splits node.splits option.splits)

lemma compressFile_map_of:
  assumes "compressFile env fs src d = (res, fs')" "q \<noteq> path_add d ''.tmp''" "q \<noteq> d"
  shows "map_of fs' q = map_of fs q"
proof (cases "Open fs src")
  case (Inl e)
  with assms show ?thesis by (simp add: compressFile_def)
next
  case (Inr nd0)
  show ?thesis
  proof (cases "open_create True fs (path_add d ''.tmp'') (now env)")
    case (Inl e)
    with Inr assms show ?thesis by (simp add: compressFile_def)
  next
    case oc: (Inr fs1)
    have fs1: "map_of fs1 q = map_of fs q"
      using open_create_map_of [OF oc assms(2)] .
    show ?thesis
    proof (cases "\<exists>bs t. map_of fs1 src = Some (File bs t)")
      case False
      then have "fs' = AList.update (path_add d ''.tmp'') (File (gzip env []) (now env)) fs1"
        using assms(1) Inr oc
        by (auto simp: compressFile_def split: option.splits node.splits)
      then show ?thesis using fs1 assms(2) by (simp add: update_conv')
    next
      case True
      then obtain bs t where src: "map_of fs1 src = Some (File bs t)" by blast
      let ?fs2 = "AList.update (path_add d ''.tmp'') (File (gzip env bs) (now env)) fs1"
      have fs2: "map_of ?fs2 q = map_of fs q" using fs1 assms(2) by (simp add: update_conv')
      show ?thesis
      proof (cases "Rename ?fs2 (path_add d ''.tmp'') d")
        case (Inl e)
        then have "fs' = ?fs2" using assms(1) Inr oc src by (simp add: compressFile_def)
        with fs2 show ?thesis by simp
      next
        case rn: (Inr fs3)
        then have "fs' = fs3" using assms(1) Inr oc src by (simp add: compressFile_def)
        with Rename_map_of [OF rn assms(2,3)] fs2 show ?thesis by simp
      qed
    qed
  qed
qed

subsection \<open>Compression after Sync\<close>

text \<open>
  \<^verbatim>\<open>filepath.Glob\<close> matches \<^verbatim>\<open>**\<close> as it matches \<^verbatim>\<open>*\<close>: within one path element. The
  pattern of \<^verbatim>\<open>compress\<close> therefore selects files two levels below the WAL directory,
  and none of the files that \<^verbatim>\<open>syncWAL\<close> writes at \<^verbatim>\<open>WALPath\<close>, directly in it.
\<close>

lemma dir_names_File:
  "map_of fs p = Some (File bs t) \<Longrightarrow> p \<noteq> [] \<Longrightarrow> dir_names fs p = []"
proof -
  assume a: "map_of fs p = Some (File bs t)" "p \<noteq> []"
  have "\<not> (\<exists>sz t'. Stat fs p = Inr (Dir sz t'))"
  proof
    assume "\<exists>sz t'. Stat fs p = Inr (Dir sz t')"
    then obtain sz t' where "Stat fs p = Inr (Dir sz t')" by blast
    from Stat_Inr [OF this a(2)] a(1) show False by simp
  qed
  then show ?thesis
    by (auto simp: dir_names_def ReadDir_def split: sum.splits node.splits)
qed

lemma Glob_wal_flat:
  assumes "\<forall>n\<in>set (dir_names fs dir). \<exists>bs t. map_of fs (dir @ [n]) = Some (File bs t)"
  shows "Glob_wal fs dir = []"
proof -
  have "\<forall>n\<in>set (dir_names fs dir). dir_names fs (dir @ [n]) = []"
    using assms by (auto dest: dir_names_File)
  then show ?thesis by (simp add: Glob_wal_def)
qed

lemma compress_flat:
  "\<forall>n\<in>set (dir_names fs (WALDir r g)). \<exists>bs t. map_of fs (WALDir r g @ [n]) = Some (File bs t) \<Longrightarrow>
   compress env c r fs g = (None, fs)"
  by (simp add: compress_def Glob_wal_flat)

lemmas sync_eval = Sync_def Sync_snapshot_def Sync_pos_def snapshotN_def snapshot_def
  compressFile_def CalcPos_def MaxSnapshotIndex_def max_step_def syncWAL_def compress_def
  Glob_wal_def dir_names_def LastPos_def Pos_IsZero_def zero_Pos_def write_at_def
  ex_gzip_def ex_rd_def

lemma Sync_ex1:
  "Sync 3 ex_env1 None ex_r ex_fs0
     = Some (None, ex_r\<lparr>pos := \<lparr>Generation = ''g1'', Index = 1, Offset = 2\<rparr>\<rparr>, ex_fs1)"
  by (simp add: ex_env1_def ex_fs0_def ex_fs1_def ex_eval fs_eval parse_eval sync_eval
        fmt_016x_1 numeral_3_eq_3)

lemma Sync_ex2:
  "Sync 3 ex_env2 None (ex_r\<lparr>pos := \<lparr>Generation = ''g1'', Index = 1, Offset = 2\<rparr>\<rparr>) ex_fs1
     = Some (None, ex_r\<lparr>pos := \<lparr>Generation = ''g1'', Index = 2, Offset = 1\<rparr>\<rparr>, ex_fs2)"
  by (simp add: ex_env2_def ex_fs1_def ex_fs2_def ex_eval fs_eval parse_eval sync_eval
        fmt_016x_1 fmt_016x_2 numeral_3_eq_3)

text \<open>
  C1, on the code. Two calls of \<^verbatim>\<open>Sync\<close> complete with success on a destination that was
  empty, the database moving from index 1 to index 2 of its generation in between.
  Afterwards the WAL directory of the generation holds two uncompressed WAL files, of
  index 1 and of index 2, and no compressed file of index 1: the file of the lower index
  has not been replaced by its compressed variant.
\<close>

theorem Sync_leaves_sealed_uncompressed:
  "Sync 3 ex_env1 None ex_r ex_fs0
     = Some (None, ex_r\<lparr>pos := \<lparr>Generation = ''g1'', Index = 1, Offset = 2\<rparr>\<rparr>, ex_fs1)
   \<and> Sync 3 ex_env2 None (ex_r\<lparr>pos := \<lparr>Generation = ''g1'', Index = 1, Offset = 2\<rparr>\<rparr>) ex_fs1
     = Some (None, ex_r\<lparr>pos := \<lparr>Generation = ''g1'', Index = 2, Offset = 1\<rparr>\<rparr>, ex_fs2)
   \<and> Stat ex_fs2 (WALPath ex_r ''g1'' 1) = Inr (File [7, 8] 10000)
   \<and> Stat ex_fs2 (WALPath ex_r ''g1'' 2) = Inr (File [6] 10000)
   \<and> Stat ex_fs2 (path_add (WALPath ex_r ''g1'' 1) ''.gz'') = Inl ErrNotExist"
proof -
  have "Stat ex_fs2 (WALPath ex_r ''g1'' 1) = Inr (File [7, 8] 10000)"
    and "Stat ex_fs2 (WALPath ex_r ''g1'' 2) = Inr (File [6] 10000)"
    and "Stat ex_fs2 (path_add (WALPath ex_r ''g1'' 1) ''.gz'') = Inl ErrNotExist"
    by (simp_all add: ex_fs1_def ex_fs2_def ex_eval fs_eval fmt_016x_1 fmt_016x_2)
  with Sync_ex1 Sync_ex2 show ?thesis by simp
qed

subsection \<open>Cancellation during compression\<close>

lemma compress_loop_cancel:
  "k < length names \<Longrightarrow>
   compress_loop env (Some k) err fs names =
     (case compress_loop env None err fs (take k names) of
        (None, fs') \<Rightarrow> (err, fs')
      | (Some e, fs') \<Rightarrow> (Some e, fs'))"
proof (induction names arbitrary: k fs)
  case Nil
  then show ?case by simp
next
  case (Cons x names)
  show ?case
  proof (cases k)
    case 0
    then show ?thesis by (simp add: ctx_Done_def)
  next
    case (Suc k')
    with Cons.prems have k': "k' < length names" by simp
    show ?thesis
      using Cons.IH [OF k']
      by (simp add: Suc ctx_Done_def ctx_tick_def split: prod.splits option.splits sum.splits)
  qed
qed

lemma compress_loop_map_of:
  "compress_loop env c err fs names = (res, fs') \<Longrightarrow>
   \<forall>x\<in>set names. q \<noteq> x \<and> q \<noteq> path_add x ''.gz''
                    \<and> q \<noteq> path_add (path_add x ''.gz'') ''.tmp'' \<Longrightarrow>
   map_of fs' q = map_of fs q"
proof (induction names arbitrary: c fs)
  case Nil
  then show ?case by simp
next
  case (Cons x names)
  show ?case
  proof (cases "ctx_Done c")
    case True
    with Cons.prems show ?thesis by simp
  next
    case nd: False
    obtain r1 fs1 where cf: "compressFile env fs x (path_add x ''.gz'') = (r1, fs1)"
      by (cases "compressFile env fs x (path_add x ''.gz'')")
    have fs1: "map_of fs1 q = map_of fs q"
      using compressFile_map_of [OF cf] Cons.prems(2) by simp
    show ?thesis
    proof (cases r1)
      case (Some e)
      with Cons.prems(1) nd cf fs1 show ?thesis by simp
    next
      case None
      show ?thesis
      proof (cases "Remove fs1 x")
        case (Inl e)
        with Cons.prems(1) nd cf None fs1 show ?thesis by simp
      next
        case (Inr fs2)
        have fs2: "map_of fs2 q = map_of fs q"
          using Remove_map_of [OF Inr] fs1 Cons.prems(2) by simp
        have "compress_loop env (ctx_tick c) err fs2 names = (res, fs')"
          using Cons.prems(1) nd cf None Inr by simp
        from Cons.IH [OF this] Cons.prems(2) fs2 show ?thesis by simp
      qed
    qed
  qed
qed

lemma distinct_concat_map:
  "distinct xs \<Longrightarrow> \<forall>x\<in>set xs. distinct (f x) \<Longrightarrow>
   \<forall>x\<in>set xs. \<forall>y\<in>set xs. x \<noteq> y \<longrightarrow> set (f x) \<inter> set (f y) = {} \<Longrightarrow>
   distinct (concat (map f xs))"
proof (induction xs)
  case Nil
  then show ?case by simp
next
  case (Cons a xs)
  have "distinct (concat (map f xs))" using Cons by simp
  moreover have "distinct (f a)" using Cons.prems by simp
  moreover have "set (f a) \<inter> set (f y) = {}" if "y \<in> set xs" for y
    using that Cons.prems by auto
  ultimately show ?case by auto
qed

lemma dir_names_distinct: "distinct (dir_names fs d)"
  by (auto simp: dir_names_def ReadDir_distinct split: sum.splits)

lemma Glob_wal_distinct: "distinct (Glob_wal fs dir)"
  unfolding Glob_wal_def
  by (rule distinct_concat_map)
    (auto simp: dir_names_distinct distinct_map inj_on_def)

lemma Glob_wal_mem:
  "p \<in> set (Glob_wal fs dir) \<Longrightarrow> \<exists>d n. p = dir @ [d, n] \<and> suffix ''.wal'' n"
  by (auto simp: Glob_wal_def)

lemma path_add_last: "s \<noteq> [] \<Longrightarrow> last (last (path_add p s)) = last s"
  by (simp add: path_add_def)

lemma path_add_nonempty: "path_add p s \<noteq> []"
  by (simp add: path_add_def)

lemma Glob_wal_last: "p \<in> set (Glob_wal fs dir) \<Longrightarrow> p \<noteq> [] \<and> last (last p) = CHR ''l''"
  by (auto dest!: Glob_wal_mem simp: suffix_def)

lemma path_add_inj:
  "p \<noteq> [] \<Longrightarrow> p' \<noteq> [] \<Longrightarrow> path_add p s = path_add p' s \<Longrightarrow> p = p'"
proof -
  assume a: "p \<noteq> []" "p' \<noteq> []" "path_add p s = path_add p' s"
  then have "butlast p @ [last p @ s] = butlast p' @ [last p' @ s]"
    by (simp add: path_add_def)
  then have "butlast p = butlast p'" "last p = last p'" by simp_all
  with a(1,2) show ?thesis by (metis append_butlast_last_id)
qed

text \<open>
  C9. Let the pattern of \<^verbatim>\<open>compress\<close> match more than one file, so that the sweep runs
  over \<^verbatim>\<open>names\<close>, and let the context be done when the loop looks at it for item \<^verbatim>\<open>k\<close>,
  the \<^verbatim>\<open>k\<close> items before having been compressed without error. Then \<^verbatim>\<open>compress\<close> returns
  a nil error; every remaining file of the sweep is as it was, and so is whatever was at
  the path of its compressed variant; and a \<^verbatim>\<open>Sync\<close> whose earlier steps succeeded
  returns a nil error as well.
\<close>

theorem compress_cancelled_nil:
  assumes glob: "1 < length (Glob_wal fs (WALDir r g))"
    and names: "names = butlast (sort_key path_string (Glob_wal fs (WALDir r g)))"
    and k: "k < length names"
    and pre: "compress_loop env None None fs (take k names) = (None, fs')"
  shows "compress env (Some k) r fs g = (None, fs')
     \<and> (\<forall>f\<in>set (drop k names).
           map_of fs' f = map_of fs f
           \<and> map_of fs' (path_add f ''.gz'') = map_of fs (path_add f ''.gz''))
     \<and> (db_Pos env = Inr dpos \<and> \<not> Pos_IsZero dpos \<and> Generation dpos = g \<and> g \<noteq> []
          \<and> Sync_snapshot env r0 fs0 dpos = (None, fs1) \<and> Sync_pos r0 fs1 g = Inr r1
          \<and> syncWAL_loop fuel env r1 fs1 = Some (None, r, fs) \<longrightarrow>
        Sync fuel env (Some k) r0 fs0 = Some (None, r, fs'))"
proof -
  have c: "compress env (Some k) r fs g = (None, fs')"
    using glob k pre compress_loop_cancel [OF k, of env None fs]
    by (simp add: compress_def Let_def names [symmetric])
  have dist: "distinct names"
    unfolding names by (simp add: distinct_butlast Glob_wal_distinct)
  have sub: "set names \<subseteq> set (Glob_wal fs (WALDir r g))"
    unfolding names using in_set_butlastD by fastforce
  have rest: "map_of fs' f = map_of fs f
           \<and> map_of fs' (path_add f ''.gz'') = map_of fs (path_add f ''.gz'')"
    if f: "f \<in> set (drop k names)" for f
  proof -
    have fn: "f \<in> set names" using f by (rule in_set_dropD)
    have fl: "f \<noteq> []" "last (last f) = CHR ''l''"
      using Glob_wal_last fn sub by blast+
    have other: "x \<noteq> f \<and> x \<noteq> [] \<and> last (last x) = CHR ''l''" if "x \<in> set (take k names)" for x
    proof -
      have "x \<in> set names" using that by (rule in_set_takeD)
      moreover have "x \<noteq> f"
        using that f dist set_take_disj_set_drop_if_distinct [of names k k] by auto
      ultimately show ?thesis using Glob_wal_last sub by blast
    qed
    have a: "\<forall>x\<in>set (take k names). f \<noteq> x \<and> f \<noteq> path_add x ''.gz''
                    \<and> f \<noteq> path_add (path_add x ''.gz'') ''.tmp''"
    proof
      fix x assume x: "x \<in> set (take k names)"
      have "f \<noteq> path_add x ''.gz''"
        using fl(2) path_add_last [of "''.gz''" x] by auto
      moreover have "f \<noteq> path_add (path_add x ''.gz'') ''.tmp''"
        using fl(2) path_add_last [of "''.tmp''" "path_add x ''.gz''"] by auto
      ultimately show "f \<noteq> x \<and> f \<noteq> path_add x ''.gz''
                    \<and> f \<noteq> path_add (path_add x ''.gz'') ''.tmp''"
        using other [OF x] by auto
    qed
    have b: "\<forall>x\<in>set (take k names). path_add f ''.gz'' \<noteq> x
                    \<and> path_add f ''.gz'' \<noteq> path_add x ''.gz''
                    \<and> path_add f ''.gz'' \<noteq> path_add (path_add x ''.gz'') ''.tmp''"
    proof
      fix x assume x: "x \<in> set (take k names)"
      have "path_add f ''.gz'' \<noteq> x"
        using other [OF x] path_add_last [of "''.gz''" f] by auto
      moreover have "path_add f ''.gz'' \<noteq> path_add x ''.gz''"
        using other [OF x] fl(1) path_add_inj [of f x "''.gz''"] by auto
      moreover have "path_add f ''.gz'' \<noteq> path_add (path_add x ''.gz'') ''.tmp''"
        using path_add_last [of "''.gz''" f]
          path_add_last [of "''.tmp''" "path_add x ''.gz''"] by auto
      ultimately show "path_add f ''.gz'' \<noteq> x
                    \<and> path_add f ''.gz'' \<noteq> path_add x ''.gz''
                    \<and> path_add f ''.gz'' \<noteq> path_add (path_add x ''.gz'') ''.tmp''"
        by simp
    qed
    from compress_loop_map_of [OF pre a] compress_loop_map_of [OF pre b] show ?thesis by simp
  qed
  have s: "Sync fuel env (Some k) r0 fs0 = Some (None, r, fs')"
    if "db_Pos env = Inr dpos" "\<not> Pos_IsZero dpos" "Generation dpos = g" "g \<noteq> []"
      "Sync_snapshot env r0 fs0 dpos = (None, fs1)" "Sync_pos r0 fs1 g = Inr r1"
      "syncWAL_loop fuel env r1 fs1 = Some (None, r, fs)"
    using that c by (simp add: Sync_def)
  from c rest s show ?thesis by blast
qed

theorem compress_cancelled_nil_witness:
  "Glob_wal ex_fs_nested (WALDir ex_r ''g1'')
     = [[''backup'', ''generations'', ''g1'', ''wal'', ''x'', ''a.wal''],
        [''backup'', ''generations'', ''g1'', ''wal'', ''x'', ''b.wal''],
        [''backup'', ''generations'', ''g1'', ''wal'', ''x'', ''c.wal'']]
   \<and> compress ex_env (Some 1) ex_r ex_fs_nested ''g1'' = (None, ex_fs_cancelled)
   \<and> map_of ex_fs_cancelled [''backup'', ''generations'', ''g1'', ''wal'', ''x'', ''b.wal'']
       = map_of ex_fs_nested [''backup'', ''generations'', ''g1'', ''wal'', ''x'', ''b.wal'']
   \<and> map_of ex_fs_cancelled [''backup'', ''generations'', ''g1'', ''wal'', ''x'', ''b.wal.gz'']
       = None
   \<and> Sync 1 ex_env (Some 1) (ex_r\<lparr>pos := \<lparr>Generation = ''g1'', Index = 1, Offset = 0\<rparr>\<rparr>)
        ex_fs_nested
       = Some (None, ex_r\<lparr>pos := \<lparr>Generation = ''g1'', Index = 1, Offset = 0\<rparr>\<rparr>,
               ex_fs_cancelled)"
proof -
  let ?a = "[''backup'', ''generations'', ''g1'', ''wal'', ''x'', ''a.wal'']"
  let ?b = "[''backup'', ''generations'', ''g1'', ''wal'', ''x'', ''b.wal'']"
  let ?c = "[''backup'', ''generations'', ''g1'', ''wal'', ''x'', ''c.wal'']"
  let ?p = "\<lparr>Generation = ''g1'', Index = 1, Offset = 0\<rparr>"
  let ?r = "ex_r\<lparr>pos := ?p\<rparr>"
  have g: "Glob_wal ex_fs_nested (WALDir ex_r ''g1'') = [?a, ?b, ?c]"
    by (simp add: ex_fs_nested_def ex_eval fs_eval Glob_wal_def dir_names_def suffix_def)
  have wd: "WALDir ?r ''g1'' = WALDir ex_r ''g1''"
    by (simp add: fs_eval)
  have n: "[?a, ?b] = butlast (sort_key path_string (Glob_wal ex_fs_nested (WALDir ex_r ''g1'')))"
    by (simp add: g path_string_def)
  have n': "[?a, ?b] = butlast (sort_key path_string (Glob_wal ex_fs_nested (WALDir ?r ''g1'')))"
    by (simp only: wd n)
  have l: "1 < length (Glob_wal ex_fs_nested (WALDir ex_r ''g1''))"
    by (simp add: g)
  have l': "1 < length (Glob_wal ex_fs_nested (WALDir ?r ''g1''))"
    by (simp only: wd l)
  have k: "1 < length [?a, ?b]"
    by simp
  have p: "compress_loop ex_env None None ex_fs_nested (take 1 [?a, ?b]) = (None, ex_fs_cancelled)"
    by (simp add: ex_fs_nested_def ex_fs_cancelled_def ex_eval fs_eval compressFile_def
          ctx_Done_def ex_gzip_def)
  have d: "db_Pos ex_env = Inr ?p" "\<not> Pos_IsZero ?p" "Generation ?p = ''g1''" "''g1'' \<noteq> []"
    by (simp_all add: ex_env_def Pos_IsZero_def zero_Pos_def)
  have s1: "Sync_snapshot ex_env ?r ex_fs_nested ?p = (None, ex_fs_nested)"
    by (simp add: ex_fs_nested_def ex_eval fs_eval parse_eval Sync_snapshot_def snapshotN_def
          MaxSnapshotIndex_def max_step_def snapshot_index_def)
  have s2: "Sync_pos ?r ex_fs_nested ''g1'' = Inr ?r"
    by (simp add: Sync_pos_def LastPos_def Pos_IsZero_def zero_Pos_def ex_r_def
          NewFileReplica_def)
  have s3: "syncWAL_loop 1 ex_env ?r ex_fs_nested = Some (None, ?r, ex_fs_nested)"
    by (simp add: syncWAL_def ex_eval LastPos_def)
  have dr: "set (drop 1 [?a, ?b]) = {?b}"
    by simp
  have bz: "path_add ?b ''.gz''
              = [''backup'', ''generations'', ''g1'', ''wal'', ''x'', ''b.wal.gz'']"
    by (simp add: path_add_def)
  have bn: "map_of ex_fs_nested (path_add ?b ''.gz'') = None"
    by (simp add: bz ex_fs_nested_def ex_eval)
  note t1 = compress_cancelled_nil [OF l n k p]
  note t2 = compress_cancelled_nil [OF l' n' k p, where dpos = ?p and ?r0.0 = ?r
        and ?fs0.0 = ex_fs_nested and ?fs1.0 = ex_fs_nested and ?r1.0 = ?r and fuel = 1]
  from t1 have c1: "compress ex_env (Some 1) ex_r ex_fs_nested ''g1'' = (None, ex_fs_cancelled)"
    by (rule conjunct1)
  from t1 have "\<forall>f\<in>set (drop 1 [?a, ?b]).
           map_of ex_fs_cancelled f = map_of ex_fs_nested f
           \<and> map_of ex_fs_cancelled (path_add f ''.gz'') = map_of ex_fs_nested (path_add f ''.gz'')"
    by blast
  then have c2: "map_of ex_fs_cancelled ?b = map_of ex_fs_nested ?b
           \<and> map_of ex_fs_cancelled (path_add ?b ''.gz'') = map_of ex_fs_nested (path_add ?b ''.gz'')"
    unfolding dr by blast
  from t2 d s1 s2 s3
  have c3: "Sync 1 ex_env (Some 1) ?r ex_fs_nested = Some (None, ?r, ex_fs_cancelled)"
    by blast
  from g c1 c2 c3 bn show ?thesis
    by (simp only: bz simp_thms)
qed

subsection \<open>Retention\<close>

text \<open>
  \<^verbatim>\<open>os.Stat\<close> of a path from \<^verbatim>\<open>os.Stat\<close> of its directory, the earliest retained snapshot
  of a generation, and the effect of the two deletion loops.
\<close>

lemma walk_snoc:
  "walk fs d (cs @ [n]) =
     (case walk fs d cs of
        Inl e \<Rightarrow> Inl e
      | Inr (File bs t) \<Rightarrow> Inl ENOTDIR
      | Inr (Dir sz t) \<Rightarrow>
          (case map_of fs (d @ cs @ [n]) of None \<Rightarrow> Inl ErrNotExist | Some nd \<Rightarrow> Inr nd))"
  by (induction fs d cs rule: walk.induct) (auto split: option.splits node.splits sum.splits)

lemma Stat_snoc:
  "Stat fs (d @ [n]) =
     (case Stat fs d of
        Inl e \<Rightarrow> Inl e
      | Inr (File bs t) \<Rightarrow> Inl ENOTDIR
      | Inr (Dir sz t) \<Rightarrow>
          (case map_of fs (d @ [n]) of None \<Rightarrow> Inl ErrNotExist | Some nd \<Rightarrow> Inr nd))"
  by (auto simp: Stat_def walk_snoc split: sum.splits node.splits option.splits)

lemma Stat_frame:
  "(\<And>q. q \<notin> D \<Longrightarrow> map_of fs' q = map_of fs q) \<Longrightarrow> (\<And>q. prefix q p \<Longrightarrow> q \<notin> D) \<Longrightarrow>
   Stat fs' p = Stat fs p"
  by (rule Stat_cong) simp

lemma FindMin_loop_None:
  "FindMin_loop g m a = None \<longleftrightarrow> m = None \<and> (\<forall>s\<in>set a. sn_Generation s \<noteq> g)"
  by (induction a arbitrary: m) (auto split: option.splits)

lemma FindMin_loop_Some:
  "FindMin_loop g m a = Some s \<Longrightarrow>
   (m = Some s \<or> s \<in> set a \<and> sn_Generation s = g)
   \<and> (\<forall>s'\<in>set a. sn_Generation s' = g \<longrightarrow> sn_Index s \<le> sn_Index s')
   \<and> (\<forall>s'. m = Some s' \<longrightarrow> sn_Index s \<le> sn_Index s')"
proof (induction a arbitrary: m)
  case Nil
  then show ?case by simp
next
  case (Cons x a)
  show ?case
  proof (cases "sn_Generation x \<noteq> g")
    case True
    with Cons.prems have "FindMin_loop g m a = Some s" by simp
    from Cons.IH [OF this] True show ?thesis by auto
  next
    case g: False
    show ?thesis
    proof (cases m)
      case None
      with Cons.prems g have "FindMin_loop g (Some x) a = Some s" by simp
      from Cons.IH [OF this] None g show ?thesis by auto
    next
      case (Some s0)
      show ?thesis
      proof (cases "sn_Index x < sn_Index s0")
        case True
        with Cons.prems g Some have "FindMin_loop g (Some x) a = Some s" by simp
        from Cons.IH [OF this] Some g True show ?thesis by auto
      next
        case False
        with Cons.prems g Some have "FindMin_loop g m a = Some s" by simp
        from Cons.IH [OF this] Some g False show ?thesis by auto
      qed
    qed
  qed
qed

lemma FindMin_None:
  "FindMinSnapshotByGeneration R g = None \<longleftrightarrow> (\<forall>s\<in>set R. sn_Generation s \<noteq> g)"
  by (simp add: FindMinSnapshotByGeneration_def FindMin_loop_None)

lemma FindMin_Some:
  "FindMinSnapshotByGeneration R g = Some s \<Longrightarrow>
   s \<in> set R \<and> sn_Generation s = g
   \<and> (\<forall>s'\<in>set R. sn_Generation s' = g \<longrightarrow> sn_Index s \<le> sn_Index s')"
  using FindMin_loop_Some [of g None R s] by (simp add: FindMinSnapshotByGeneration_def)

lemma delete_before_loop_map_of:
  "delete_before_loop parse dir index fs fis = (None, fs') \<Longrightarrow>
   map_of fs' q =
     (if \<exists>fi\<in>set fis. q = dir @ [Name fi] \<and> (\<exists>idx. parse fi = Some idx \<and> idx < index)
      then None else map_of fs q)"
proof (induction fis arbitrary: fs)
  case Nil
  then show ?case by simp
next
  case (Cons fi fis)
  show ?case
  proof (cases "\<exists>idx. parse fi = Some idx \<and> idx < index")
    case False
    then have "delete_before_loop parse dir index fs fis = (None, fs')"
      using Cons.prems by (auto split: option.splits if_splits)
    from Cons.IH [OF this] False show ?thesis by auto
  next
    case True
    then obtain idx where idx: "parse fi = Some idx" "idx < index" by blast
    with Cons.prems obtain fsm where rm: "Remove fs (dir @ [Name fi]) = Inr fsm"
      and rest: "delete_before_loop parse dir index fsm fis = (None, fs')"
      by (auto split: sum.splits)
    from Cons.IH [OF rest] Remove_map_of [OF rm] idx show ?thesis by auto
  qed
qed

lemma ReadDir_Inl:
  "ReadDir fs d = Inl e \<Longrightarrow> IsNotExist e \<Longrightarrow> Stat fs d = Inl ErrNotExist"
  by (auto simp: ReadDir_def IsNotExist_def split: sum.splits node.splits)

lemma ReadDir_Inr: "ReadDir fs d = Inr fis \<Longrightarrow> \<exists>sz t. Stat fs d = Inr (Dir sz t)"
  by (auto simp: ReadDir_def split: sum.splits node.splits)

lemma delete_before_effect:
  assumes run: "(case ReadDir fs dir of
                   Inl e \<Rightarrow> (if IsNotExist e then (None, fs) else (Some e, fs))
                 | Inr fis \<Rightarrow> delete_before_loop (\<lambda>fi. pn (Name fi)) dir m fs fis) = (None, fs')"
  shows "q \<notin> {dir @ [n] | n i. pn n = Some i \<and> i < m} \<Longrightarrow> map_of fs' q = map_of fs q"
    and "pn n = Some i \<Longrightarrow> i < m \<Longrightarrow> Stat fs' (dir @ [n]) = Inl ErrNotExist"
proof -
  let ?D = "{dir @ [n] | n i. pn n = Some i \<and> i < m}"
  have both: "(\<forall>q. q \<notin> ?D \<longrightarrow> map_of fs' q = map_of fs q)
      \<and> (\<forall>n i. pn n = Some i \<and> i < m \<longrightarrow> Stat fs' (dir @ [n]) = Inl ErrNotExist)"
  proof (cases "ReadDir fs dir")
    case (Inl e)
    with run have e: "IsNotExist e" and eq: "fs' = fs" by (auto split: if_splits)
    from ReadDir_Inl [OF Inl e] have "Stat fs (dir @ [n]) = Inl ErrNotExist" for n
      by (simp add: Stat_snoc)
    with eq show ?thesis by simp
  next
    case (Inr fis)
    with run have loop: "delete_before_loop (\<lambda>fi. pn (Name fi)) dir m fs fis = (None, fs')"
      by simp
    note mo = delete_before_loop_map_of [OF loop]
    have frame: "map_of fs' q = map_of fs q" if "q \<notin> ?D" for q
      using mo [of q] that by auto
    have gone: "map_of fs' (dir @ [n]) = None" if n: "pn n = Some i" "i < m" for n i
    proof (cases "map_of fs (dir @ [n])")
      case None
      with mo [of "dir @ [n]"] show ?thesis by (simp split: if_splits)
    next
      case (Some nd)
      then have "file_info n nd \<in> set fis"
        using ReadDir_mem [OF Inr, of "file_info n nd"] by simp
      then have "\<exists>fi\<in>set fis. dir @ [n] = dir @ [Name fi]
                   \<and> (\<exists>idx. pn (Name fi) = Some idx \<and> idx < m)"
        using n by (intro bexI [of _ "file_info n nd"]) simp_all
      with mo [of "dir @ [n]"] show ?thesis by simp
    qed
    from ReadDir_Inr [OF Inr] obtain sz t where d: "Stat fs dir = Inr (Dir sz t)" by blast
    have "Stat fs' dir = Stat fs dir"
    proof (rule Stat_frame [where D = ?D])
      fix q assume "q \<notin> ?D" then show "map_of fs' q = map_of fs q" by (rule frame)
    next
      fix q assume "prefix q dir"
      then have "length q \<le> length dir" by (rule prefix_length_le)
      then show "q \<notin> ?D" by auto
    qed
    with d have "Stat fs' (dir @ [n]) = Inl ErrNotExist" if "pn n = Some i" "i < m" for n i
      using gone [OF that] by (simp add: Stat_snoc)
    with frame show ?thesis by blast
  qed
  from both show "q \<notin> ?D \<Longrightarrow> map_of fs' q = map_of fs q" by blast
  from both show "pn n = Some i \<Longrightarrow> i < m \<Longrightarrow> Stat fs' (dir @ [n]) = Inl ErrNotExist" by blast
qed

lemma snapshot_index_pn: "snapshot_index = (\<lambda>fi. (map_option fst \<circ> ParseSnapshotPath) (Name fi))"
  by (rule ext) (simp add: snapshot_index_def)

lemma wal_index_pn: "wal_index = (\<lambda>fi. (map_option fst \<circ> ParseWALPath) (Name fi))"
  by (rule ext) (simp add: wal_index_def)

lemma deleteGenerationSnapshotsBefore_effect:
  assumes "deleteGenerationSnapshotsBefore r fs g m = (None, fs')"
  shows "(\<forall>n. q \<noteq> SnapshotDir r g @ [n]) \<or> length q \<noteq> Suc (length (SnapshotDir r g))
           \<Longrightarrow> map_of fs' q = map_of fs q"
    and "ParseSnapshotPath n = Some (i, e) \<Longrightarrow> m \<le> i \<Longrightarrow>
           map_of fs' (SnapshotDir r g @ [n]) = map_of fs (SnapshotDir r g @ [n])"
    and "ParseSnapshotPath n = Some (i, e) \<Longrightarrow> i < m \<Longrightarrow>
           Stat fs' (SnapshotDir r g @ [n]) = Inl ErrNotExist"
proof -
  note run = assms [unfolded deleteGenerationSnapshotsBefore_def snapshot_index_pn]
  note eff = delete_before_effect [OF run]
  show "(\<forall>n. q \<noteq> SnapshotDir r g @ [n]) \<or> length q \<noteq> Suc (length (SnapshotDir r g))
           \<Longrightarrow> map_of fs' q = map_of fs q"
    by (rule eff(1)) auto
  show "ParseSnapshotPath n = Some (i, e) \<Longrightarrow> m \<le> i \<Longrightarrow>
           map_of fs' (SnapshotDir r g @ [n]) = map_of fs (SnapshotDir r g @ [n])"
    by (rule eff(1)) auto
  show "ParseSnapshotPath n = Some (i, e) \<Longrightarrow> i < m \<Longrightarrow>
           Stat fs' (SnapshotDir r g @ [n]) = Inl ErrNotExist"
    by (rule eff(2) [of n i]) simp_all
qed

lemma deleteGenerationWALBefore_effect:
  assumes "deleteGenerationWALBefore r fs g m = (None, fs')"
  shows "(\<forall>n. q \<noteq> WALDir r g @ [n]) \<or> length q \<noteq> Suc (length (WALDir r g))
           \<Longrightarrow> map_of fs' q = map_of fs q"
    and "ParseWALPath n = Some (i, off, e) \<Longrightarrow> m \<le> i \<Longrightarrow>
           map_of fs' (WALDir r g @ [n]) = map_of fs (WALDir r g @ [n])"
    and "ParseWALPath n = Some (i, off, e) \<Longrightarrow> i < m \<Longrightarrow>
           Stat fs' (WALDir r g @ [n]) = Inl ErrNotExist"
proof -
  note run = assms [unfolded deleteGenerationWALBefore_def wal_index_pn]
  note eff = delete_before_effect [OF run]
  show "(\<forall>n. q \<noteq> WALDir r g @ [n]) \<or> length q \<noteq> Suc (length (WALDir r g))
           \<Longrightarrow> map_of fs' q = map_of fs q"
    by (rule eff(1)) auto
  show "ParseWALPath n = Some (i, off, e) \<Longrightarrow> m \<le> i \<Longrightarrow>
           map_of fs' (WALDir r g @ [n]) = map_of fs (WALDir r g @ [n])"
    by (rule eff(1)) auto
  show "ParseWALPath n = Some (i, off, e) \<Longrightarrow> i < m \<Longrightarrow>
           Stat fs' (WALDir r g @ [n]) = Inl ErrNotExist"
    by (rule eff(2) [of n i]) simp_all
qed

text \<open>
  The loop over the generations: the step for one generation changes nothing outside
  the directory of that generation, so the steps for the other generations can be
  left out of account.
\<close>

lemma prefix_same_length: "prefix a p \<Longrightarrow> prefix b p \<Longrightarrow> length a = length b \<Longrightarrow> a = b"
  by (auto simp: prefix_def)

lemma GenerationDir_under:
  assumes "prefix (GenerationDir r g) p" "prefix q p" "prefix (GenerationDir r g') q"
  shows "g' = g"
proof -
  from assms(2,3) have "prefix (GenerationDir r g') p" by (rule prefix_order.trans [rotated])
  with assms(1) show ?thesis
    using prefix_same_length [of "GenerationDir r g'" p "GenerationDir r g"]
    by (simp add: GenerationDir_def)
qed

lemma under_generation:
  assumes agree: "\<And>q. (\<forall>g'\<in>S. \<not> prefix (GenerationDir r g') q) \<Longrightarrow> map_of f2 q = map_of f1 q"
    and g: "g \<notin> S"
    and p: "prefix (GenerationDir r g) p"
  shows "Stat f2 p = Stat f1 p" and "map_of f2 p = map_of f1 p"
proof -
  have *: "\<forall>g'\<in>S. \<not> prefix (GenerationDir r g') q" if "prefix q p" for q
    using GenerationDir_under [OF p that] g by blast
  show "Stat f2 p = Stat f1 p"
    by (rule Stat_cong) (simp add: agree *)
  show "map_of f2 p = map_of f1 p"
    by (rule agree) (simp add: *)
qed

lemma retention_loop_Cons:
  "retention_loop r R fs (g # gs) = (None, fs') \<Longrightarrow>
   \<exists>fm. retention_loop r R fs [g] = (None, fm) \<and> retention_loop r R fm gs = (None, fs')"
  by (auto split: option.splits sum.splits prod.splits)

lemma retention_loop_append:
  "retention_loop r R fs (xs @ ys) = (None, fs') \<Longrightarrow>
   \<exists>fm. retention_loop r R fs xs = (None, fm) \<and> retention_loop r R fm ys = (None, fs')"
proof (induction xs arbitrary: fs)
  case Nil
  then show ?case by simp
next
  case (Cons x xs)
  from retention_loop_Cons [of r R fs x "xs @ ys" fs'] Cons.prems
  obtain f1 where s: "retention_loop r R fs [x] = (None, f1)"
    and l: "retention_loop r R f1 (xs @ ys) = (None, fs')" by auto
  from Cons.IH [OF l] obtain fm where a: "retention_loop r R f1 xs = (None, fm)"
    and b: "retention_loop r R fm ys = (None, fs')" by blast
  from s a have "retention_loop r R fs (x # xs) = (None, fm)"
    by (auto split: option.splits sum.splits prod.splits)
  with b show ?case by blast
qed

lemma SnapshotDir_under: "prefix (GenerationDir r g) (SnapshotDir r g @ [n])"
  by (simp add: SnapshotDir_def)

lemma WALDir_under: "prefix (GenerationDir r g) (WALDir r g @ [n])"
  by (simp add: WALDir_def)

lemma retention_step_frame:
  assumes step: "retention_loop r R fs [g] = (None, fs')"
    and q: "\<not> prefix (GenerationDir r g) q"
  shows "map_of fs' q = map_of fs q"
proof (cases "FindMinSnapshotByGeneration R g")
  case None
  with step have "RemoveAll fs (GenerationDir r g) = Inr fs'"
    by (auto split: sum.splits)
  from RemoveAll_map_of [OF this] q show ?thesis by auto
next
  case (Some s)
  with step obtain fx where
    a: "deleteGenerationSnapshotsBefore r fs g (sn_Index s) = (None, fx)" and
    b: "deleteGenerationWALBefore r fx g (sn_Index s) = (None, fs')"
    by (auto split: option.splits prod.splits)
  have "\<forall>n. q \<noteq> SnapshotDir r g @ [n]" "\<forall>n. q \<noteq> WALDir r g @ [n]"
    using q SnapshotDir_under WALDir_under by metis+
  with deleteGenerationSnapshotsBefore_effect(1) [OF a, of q]
    deleteGenerationWALBefore_effect(1) [OF b, of q]
  show ?thesis by simp
qed

lemma retention_loop_frame:
  "retention_loop r R fs gs = (None, fs') \<Longrightarrow>
   \<forall>g\<in>set gs. \<not> prefix (GenerationDir r g) q \<Longrightarrow> map_of fs' q = map_of fs q"
proof (induction gs arbitrary: fs)
  case Nil
  then show ?case by simp
next
  case (Cons g gs)
  from retention_loop_Cons [OF Cons.prems(1)] obtain fm where
    s: "retention_loop r R fs [g] = (None, fm)" and l: "retention_loop r R fm gs = (None, fs')"
    by blast
  from Cons.IH [OF l] Cons.prems(2) retention_step_frame [OF s, of q] show ?case by simp
qed

lemma retention_loop_split:
  assumes run: "retention_loop r R fs gs = (None, fs')"
    and d: "distinct gs" and g: "g \<in> set gs"
  shows "\<exists>fa fb. retention_loop r R fa [g] = (None, fb)
          \<and> (\<forall>q. (\<forall>g'\<in>set gs - {g}. \<not> prefix (GenerationDir r g') q) \<longrightarrow>
                 map_of fa q = map_of fs q \<and> map_of fs' q = map_of fb q)"
proof -
  from g obtain xs ys where gs: "gs = xs @ g # ys" by (auto dest: split_list)
  with d have nx: "set xs \<subseteq> set gs - {g}" and ny: "set ys \<subseteq> set gs - {g}" by auto
  from retention_loop_append [of r R fs xs "g # ys" fs'] run gs
  obtain fa where a: "retention_loop r R fs xs = (None, fa)"
    and b: "retention_loop r R fa (g # ys) = (None, fs')" by auto
  from retention_loop_Cons [OF b] obtain fb where
    s: "retention_loop r R fa [g] = (None, fb)" and c: "retention_loop r R fb ys = (None, fs')"
    by blast
  have "map_of fa q = map_of fs q \<and> map_of fs' q = map_of fb q"
    if "\<forall>g'\<in>set gs - {g}. \<not> prefix (GenerationDir r g') q" for q
    using retention_loop_frame [OF a, of q] retention_loop_frame [OF c, of q] that nx ny
    by blast
  with s show ?thesis by blast
qed

lemma Stat_parent: "Stat fs (d @ [n]) = Inr nd \<Longrightarrow> \<exists>sz t. Stat fs d = Inr (Dir sz t)"
  by (auto simp: Stat_snoc split: sum.splits node.splits)

lemma retention_step_none:
  assumes step: "retention_loop r R fa [g] = (None, fb)"
    and dir: "Stat fa (GenerationDir r g) = Inr nd"
    and none: "\<forall>s\<in>set R. sn_Generation s \<noteq> g"
  shows "Stat fb (GenerationDir r g) = Inl ErrNotExist"
    and "prefix (GenerationDir r g) q \<Longrightarrow> map_of fb q = None"
proof -
  let ?d = "dst r @ [''generations'']"
  have G: "GenerationDir r g = ?d @ [g]" by (simp add: GenerationDir_def)
  from none have "FindMinSnapshotByGeneration R g = None" by (simp add: FindMin_None)
  with step have "RemoveAll fa (GenerationDir r g) = Inr fb" by (auto split: sum.splits)
  from RemoveAll_map_of [OF this] dir
  have mo: "map_of fb q = (if prefix (GenerationDir r g) q then None else map_of fa q)" for q
    by auto
  then show "prefix (GenerationDir r g) q \<Longrightarrow> map_of fb q = None" by simp
  from dir obtain sz t where d: "Stat fa ?d = Inr (Dir sz t)"
    unfolding G by (blast dest: Stat_parent)
  have "Stat fb ?d = Stat fa ?d"
  proof (rule Stat_cong)
    fix q assume "prefix q ?d"
    then have "length q \<le> length ?d" by (rule prefix_length_le)
    then have "\<not> prefix (GenerationDir r g) q"
      by (auto simp: G dest: prefix_length_le)
    then show "map_of fb q = map_of fa q" by (simp add: mo)
  qed
  with d mo [of "GenerationDir r g"] Stat_snoc [of fb ?d g]
  show "Stat fb (GenerationDir r g) = Inl ErrNotExist"
    by (simp add: G)
qed

lemma prefix_snoc_cases: "prefix q (d @ [n]) \<Longrightarrow> q = d @ [n] \<or> length q \<noteq> Suc (length d)"
  using prefix_same_length [of q "d @ [n]" "d @ [n]"] by auto

lemma Snapshot_not_WAL: "SnapshotDir r g \<noteq> WALDir r g"
  by (simp add: SnapshotDir_def WALDir_def)

lemma retention_step_some:
  assumes step: "retention_loop r R fa [g] = (None, fb)"
    and some: "\<not> (\<forall>s\<in>set R. sn_Generation s \<noteq> g)"
  shows "\<exists>s\<in>set R. sn_Generation s = g
           \<and> (\<forall>s'\<in>set R. sn_Generation s' = g \<longrightarrow> sn_Index s \<le> sn_Index s')
           \<and> (\<forall>n i e. ParseSnapshotPath n = Some (i, e) \<longrightarrow>
                 (if i < sn_Index s then Stat fb (SnapshotDir r g @ [n]) = Inl ErrNotExist
                  else Stat fb (SnapshotDir r g @ [n]) = Stat fa (SnapshotDir r g @ [n])))
           \<and> (\<forall>n i off e. ParseWALPath n = Some (i, off, e) \<longrightarrow>
                 (if i < sn_Index s then Stat fb (WALDir r g @ [n]) = Inl ErrNotExist
                  else Stat fb (WALDir r g @ [n]) = Stat fa (WALDir r g @ [n])))"
proof -
  from some obtain s where fm: "FindMinSnapshotByGeneration R g = Some s"
    using FindMin_None [of R g] by (cases "FindMinSnapshotByGeneration R g") auto
  note s = FindMin_Some [OF fm]
  let ?m = "sn_Index s"
  let ?S = "SnapshotDir r g" and ?W = "WALDir r g"
  from step fm obtain fx where
    a: "deleteGenerationSnapshotsBefore r fa g ?m = (None, fx)" and
    b: "deleteGenerationWALBefore r fx g ?m = (None, fb)"
    by (auto split: option.splits prod.splits)
  note ea = deleteGenerationSnapshotsBefore_effect [OF a]
  note eb = deleteGenerationWALBefore_effect [OF b]
  have len: "length ?S = length ?W" by (simp add: SnapshotDir_def WALDir_def)
  have S_b: "Stat fb (?S @ [n]) = Stat fx (?S @ [n])" for n
  proof (rule Stat_cong)
    fix q assume "prefix q (?S @ [n])"
    then have "q = ?S @ [n] \<or> length q \<noteq> Suc (length ?W)"
      by (metis len prefix_snoc_cases)
    then have "(\<forall>n'. q \<noteq> ?W @ [n']) \<or> length q \<noteq> Suc (length ?W)"
      using Snapshot_not_WAL [of r g] by auto
    then show "map_of fb q = map_of fx q" by (rule eb(1))
  qed
  have W_a: "Stat fx (?W @ [n]) = Stat fa (?W @ [n])" for n
  proof (rule Stat_cong)
    fix q assume "prefix q (?W @ [n])"
    then have "q = ?W @ [n] \<or> length q \<noteq> Suc (length ?S)"
      by (metis len prefix_snoc_cases)
    then have "(\<forall>n'. q \<noteq> ?S @ [n']) \<or> length q \<noteq> Suc (length ?S)"
      using Snapshot_not_WAL [of r g] by auto
    then show "map_of fx q = map_of fa q" by (rule ea(1))
  qed
  have S_keep: "Stat fx (?S @ [n]) = Stat fa (?S @ [n])"
    if "ParseSnapshotPath n = Some (i, e)" "?m \<le> i" for n i e
  proof (rule Stat_cong)
    fix q assume "prefix q (?S @ [n])"
    then have "q = ?S @ [n] \<or> length q \<noteq> Suc (length ?S)"
      by (rule prefix_snoc_cases)
    then show "map_of fx q = map_of fa q"
    proof
      assume "q = ?S @ [n]"
      with ea(2) [OF that] show ?thesis by simp
    next
      assume "length q \<noteq> Suc (length ?S)"
      then show ?thesis by (intro ea(1) disjI2)
    qed
  qed
  have W_keep: "Stat fb (?W @ [n]) = Stat fx (?W @ [n])"
    if "ParseWALPath n = Some (i, off, e)" "?m \<le> i" for n i off e
  proof (rule Stat_cong)
    fix q assume "prefix q (?W @ [n])"
    then have "q = ?W @ [n] \<or> length q \<noteq> Suc (length ?W)"
      by (rule prefix_snoc_cases)
    then show "map_of fb q = map_of fx q"
    proof
      assume "q = ?W @ [n]"
      with eb(2) [OF that] show ?thesis by simp
    next
      assume "length q \<noteq> Suc (length ?W)"
      then show ?thesis by (intro eb(1) disjI2)
    qed
  qed
  have snaps: "if i < ?m then Stat fb (?S @ [n]) = Inl ErrNotExist
               else Stat fb (?S @ [n]) = Stat fa (?S @ [n])"
    if "ParseSnapshotPath n = Some (i, e)" for n i e
    using ea(3) [OF that] S_keep [OF that] S_b [of n] by auto
  have wals: "if i < ?m then Stat fb (?W @ [n]) = Inl ErrNotExist
               else Stat fb (?W @ [n]) = Stat fa (?W @ [n])"
    if "ParseWALPath n = Some (i, off, e)" for n i off e
    using eb(3) [OF that] W_keep [OF that] W_a [of n] by auto
  from s snaps wals show ?thesis by blast
qed

text \<open>
  The snapshot that \<^verbatim>\<open>EnforceRetention\<close> forces keeps every entry above the snapshot
  file, so every generation listed before it is listed after it.
\<close>

lemma mkdir_walk_keeps:
  "mkdir_walk fs d cs t = Inr fs' \<Longrightarrow> map_of fs q = Some nd \<Longrightarrow> map_of fs' q = Some nd"
proof (induction fs d cs t rule: mkdir_walk.induct)
  case (1 fs d t)
  then show ?case by simp
next
  case (2 fs d c cs t)
  show ?case
  proof (cases "map_of fs (d @ [c])")
    case None
    with "2.prems" have q: "q \<noteq> d @ [c]" by auto
    from None "2.prems"(1)
    have "mkdir_walk (AList.update (d @ [c]) (Dir 0 t) fs) (d @ [c]) cs t = Inr fs'" by simp
    moreover have "map_of (AList.update (d @ [c]) (Dir 0 t) fs) q = Some nd"
      using q "2.prems"(2) by (simp add: update_conv')
    ultimately show ?thesis using "2.IH"(1) [OF None] by blast
  next
    case (Some n0)
    show ?thesis
    proof (cases n0)
      case (File bs t')
      with Some "2.prems"(1) show ?thesis by simp
    next
      case (Dir sz t')
      with Some "2.prems"(1) have "mkdir_walk fs (d @ [c]) cs t = Inr fs'" by simp
      from "2.IH"(2) [OF Some Dir this "2.prems"(2)] show ?thesis .
    qed
  qed
qed

lemma length_path_add: "p \<noteq> [] \<Longrightarrow> length (path_add p s) = length p"
  by (simp add: path_add_def)

lemma snapshot_keeps:
  assumes run: "snapshot env r fs g i = (res, fs')"
    and q: "map_of fs q = Some nd" "length q < length (SnapshotPath r g i)"
  shows "map_of fs' q = Some nd"
proof -
  let ?sp = "SnapshotPath r g i"
  have ne: "?sp \<noteq> []" by (simp add: SnapshotPath_def)
  have q1: "q \<noteq> path_add ?sp ''.tmp''" "q \<noteq> ?sp"
    using q(2) length_path_add [OF ne, of "''.tmp''"] by auto
  show ?thesis
  proof (cases "fs' = fs")
    case True
    with q(1) show ?thesis by simp
  next
    case False
    with run obtain f1 where mk: "mkdirAll fs (SnapshotDir r g) (now env) = Inr f1"
      and cf: "compressFile env f1 (db_Path env) ?sp = (res, fs')"
      by (auto simp: snapshot_def split: option.splits sum.splits)
    from mk q(1) have "map_of f1 q = Some nd"
      unfolding mkdirAll_def by (rule mkdir_walk_keeps)
    with compressFile_map_of [OF cf q1] show ?thesis by simp
  qed
qed

lemma Stat_prefix_Some:
  "Stat fs p = Inr nd \<Longrightarrow> prefix q p \<Longrightarrow> q \<noteq> [] \<Longrightarrow> \<exists>nd'. map_of fs q = Some nd'"
proof (induction p arbitrary: nd rule: rev_induct)
  case Nil
  then show ?case by simp
next
  case (snoc n p)
  from snoc.prems(2) consider "q = p @ [n]" | "prefix q p" by auto
  then show ?case
  proof cases
    case 1
    with Stat_Inr [OF snoc.prems(1)] show ?thesis by simp
  next
    case 2
    from Stat_parent [OF snoc.prems(1)] obtain sz t where "Stat fs p = Inr (Dir sz t)" by blast
    from snoc.IH [OF this 2 snoc.prems(3)] show ?thesis .
  qed
qed

lemma Generations_mono:
  assumes keep: "\<And>q nd. map_of fs q = Some nd \<Longrightarrow> length q \<le> length (dst r) + 2 \<Longrightarrow>
                   map_of fs1 q = Some nd"
    and old: "Generations env r fs = Inr gens0"
    and new: "Generations env r fs1 = Inr gens"
  shows "set gens0 \<subseteq> set gens"
proof (cases "ReadDir fs (dst r @ [''generations''])")
  case (Inl e)
  with old show ?thesis by (auto simp: Generations_def split: if_splits)
next
  case (Inr fis)
  let ?d = "dst r @ [''generations'']"
  from ReadDir_Inr [OF Inr] obtain sz t where d: "Stat fs ?d = Inr (Dir sz t)" by blast
  have "Stat fs1 ?d = Stat fs ?d"
  proof (rule Stat_cong)
    fix q assume q: "prefix q ?d" "q \<noteq> []"
    from Stat_prefix_Some [OF d q] obtain nd' where n: "map_of fs q = Some nd'" by blast
    from q(1) have "length q \<le> length ?d" by (rule prefix_length_le)
    with keep [OF n] n show "map_of fs1 q = map_of fs q" by simp
  qed
  with d obtain fis1 where rd1: "ReadDir fs1 ?d = Inr fis1"
    by (simp add: ReadDir_def)
  have "fi \<in> set fis1" if "fi \<in> set fis" for fi
  proof -
    from ReadDir_mem [OF Inr, of fi] that obtain nd where
      n: "map_of fs (?d @ [Name fi]) = Some nd" "fi = file_info (Name fi) nd" by blast
    from keep [OF n(1)] have "map_of fs1 (?d @ [Name fi]) = Some nd" by simp
    with n(2) ReadDir_mem [OF rd1, of fi] show ?thesis by blast
  qed
  with old new Inr rd1 show ?thesis by (auto simp: Generations_def)
qed

lemma retained_Generations:
  assumes ret: "retained env r fs p infos = (e, R, fs1)"
    and old: "Generations env r fs = Inr gens0"
    and new: "Generations env r fs1 = Inr gens"
  shows "set gens0 \<subseteq> set gens"
proof (cases "fs1 = fs")
  case True
  with old new show ?thesis by simp
next
  case False
  with ret obtain res where sn: "snapshot env r fs (Generation p) (Index p) = (res, fs1)"
    by (auto simp: retained_def Let_def split: if_splits prod.splits option.splits)
  show ?thesis
  proof (rule Generations_mono [OF _ old new])
    fix q nd assume "map_of fs q = Some nd" "length q \<le> length (dst r) + 2"
    then show "map_of fs1 q = Some nd"
      by (intro snapshot_keeps [OF sn])
        (simp_all add: SnapshotPath_def SnapshotDir_def GenerationDir_def)
  qed
qed

lemma Generations_distinct: "Generations env r fs = Inr gens \<Longrightarrow> distinct gens"
  by (auto simp: Generations_def ReadDir_distinct distinct_map_filter
      split: sum.splits if_splits)

lemma Generations_Stat:
  assumes "Generations env r fs = Inr gens" "g \<in> set gens"
  shows "\<exists>nd. Stat fs (GenerationDir r g) = Inr nd"
proof -
  let ?d = "dst r @ [''generations'']"
  from assms obtain fis where rd: "ReadDir fs ?d = Inr fis" and "g \<in> Name ` set fis"
    by (auto simp: Generations_def split: sum.splits if_splits)
  then obtain fi where fi: "fi \<in> set fis" "g = Name fi" by blast
  from ReadDir_mem [OF rd, of fi] fi obtain nd where "map_of fs (?d @ [g]) = Some nd" by auto
  moreover from ReadDir_Inr [OF rd] obtain sz t where "Stat fs ?d = Inr (Dir sz t)" by blast
  ultimately have "Stat fs (?d @ [g]) = Inr nd" using Stat_snoc [of fs ?d g] by simp
  then show ?thesis by (auto simp: GenerationDir_def)
qed

text \<open>
  C2. Let \<^verbatim>\<open>EnforceRetention\<close> return no error; let \<open>R\<close> be the snapshots it retains and
  \<open>gens\<close> the generations it loops over. \<open>R\<close> is the snapshots of the listing whose
  creation time is within the retention interval, or the forced snapshot alone when
  there is none, and \<open>gens\<close> includes every generation that was listed before the call.
  For every generation \<open>g\<close> of \<open>gens\<close>: when no snapshot of \<open>R\<close> is of \<open>g\<close>, nothing is left
  at or below the directory of \<open>g\<close>; otherwise \<open>R\<close> has a snapshot of \<open>g\<close> of least
  index, every snapshot name and every WAL name (compressed or not) with a lower index
  does not exist afterwards in the directories of \<open>g\<close>, and at every such name with an
  index that is not lower \<^verbatim>\<open>os.Stat\<close> finds what it found before the deletions.
\<close>

theorem EnforceRetention_prunes:
  assumes run: "EnforceRetention env r fs = (None, fs')"
    and pos: "db_Pos env = Inr p"
    and infos: "Snapshots env r fs = Inr infos"
    and ret: "retained env r fs p infos = (e, R, fs1)"
    and old: "Generations env r fs = Inr gens0"
    and gens: "Generations env r fs1 = Inr gens"
    and g: "g \<in> set gens"
  shows "set gens0 \<subseteq> set gens
     \<and> R = (if FilterSnapshotsAfter infos (int (now env) - RetentionInterval r) = []
              then [synthetic_snapshot p]
              else FilterSnapshotsAfter infos (int (now env) - RetentionInterval r))
     \<and> (if \<forall>s\<in>set R. sn_Generation s \<noteq> g
        then Stat fs' (GenerationDir r g) = Inl ErrNotExist
             \<and> (\<forall>q. prefix (GenerationDir r g) q \<longrightarrow> map_of fs' q = None)
        else \<exists>s\<in>set R. sn_Generation s = g
               \<and> (\<forall>s'\<in>set R. sn_Generation s' = g \<longrightarrow> sn_Index s \<le> sn_Index s')
               \<and> (\<forall>n i x. ParseSnapshotPath n = Some (i, x) \<longrightarrow>
                     (if i < sn_Index s
                      then Stat fs' (SnapshotDir r g @ [n]) = Inl ErrNotExist
                      else Stat fs' (SnapshotDir r g @ [n]) = Stat fs1 (SnapshotDir r g @ [n])))
               \<and> (\<forall>n i off x. ParseWALPath n = Some (i, off, x) \<longrightarrow>
                     (if i < sn_Index s
                      then Stat fs' (WALDir r g @ [n]) = Inl ErrNotExist
                      else Stat fs' (WALDir r g @ [n]) = Stat fs1 (WALDir r g @ [n]))))"
proof -
  let ?W = "FilterSnapshotsAfter infos (int (now env) - RetentionInterval r)"
  from run pos infos ret have e: "e = None"
    by (auto simp: EnforceRetention_def split: if_splits option.splits)
  from ret e have R: "R = (if ?W = [] then [synthetic_snapshot p] else ?W)"
    by (auto simp: retained_def Let_def split: if_splits prod.splits option.splits)
  from run pos infos ret e gens have loop: "retention_loop r R fs1 gens = (None, fs')"
    by (auto simp: EnforceRetention_def split: if_splits)
  from retention_loop_split [OF loop Generations_distinct [OF gens] g]
  obtain fa fb where step: "retention_loop r R fa [g] = (None, fb)"
    and agree: "\<And>q. \<forall>g'\<in>set gens - {g}. \<not> prefix (GenerationDir r g') q \<Longrightarrow>
                 map_of fa q = map_of fs1 q \<and> map_of fs' q = map_of fb q"
    by blast
  have gn: "g \<notin> set gens - {g}" by simp
  have a1: "Stat fa q = Stat fs1 q" if "prefix (GenerationDir r g) q" for q
    by (rule under_generation(1) [OF _ gn that]) (simp add: agree)
  have a2: "Stat fs' q = Stat fb q" if "prefix (GenerationDir r g) q" for q
    by (rule under_generation(1) [OF _ gn that]) (simp add: agree)
  have a3: "map_of fs' q = map_of fb q" if "prefix (GenerationDir r g) q" for q
    by (rule under_generation(2) [OF _ gn that]) (simp add: agree)
  from Generations_Stat [OF gens g] obtain nd where "Stat fs1 (GenerationDir r g) = Inr nd"
    by blast
  then have dir: "Stat fa (GenerationDir r g) = Inr nd" by (simp add: a1)
  have main: "if \<forall>s\<in>set R. sn_Generation s \<noteq> g
        then Stat fs' (GenerationDir r g) = Inl ErrNotExist
             \<and> (\<forall>q. prefix (GenerationDir r g) q \<longrightarrow> map_of fs' q = None)
        else \<exists>s\<in>set R. sn_Generation s = g
               \<and> (\<forall>s'\<in>set R. sn_Generation s' = g \<longrightarrow> sn_Index s \<le> sn_Index s')
               \<and> (\<forall>n i x. ParseSnapshotPath n = Some (i, x) \<longrightarrow>
                     (if i < sn_Index s
                      then Stat fs' (SnapshotDir r g @ [n]) = Inl ErrNotExist
                      else Stat fs' (SnapshotDir r g @ [n]) = Stat fs1 (SnapshotDir r g @ [n])))
               \<and> (\<forall>n i off x. ParseWALPath n = Some (i, off, x) \<longrightarrow>
                     (if i < sn_Index s
                      then Stat fs' (WALDir r g @ [n]) = Inl ErrNotExist
                      else Stat fs' (WALDir r g @ [n]) = Stat fs1 (WALDir r g @ [n])))"
  proof (cases "\<forall>s\<in>set R. sn_Generation s \<noteq> g")
    case True
    from retention_step_none [OF step dir True]
    have "Stat fb (GenerationDir r g) = Inl ErrNotExist"
      and "\<And>q. prefix (GenerationDir r g) q \<Longrightarrow> map_of fb q = None"
      by blast+
    then have "Stat fs' (GenerationDir r g) = Inl ErrNotExist
             \<and> (\<forall>q. prefix (GenerationDir r g) q \<longrightarrow> map_of fs' q = None)"
      by (simp add: a2 a3)
    then show ?thesis unfolding if_P [OF True] .
  next
    case False
    from retention_step_some [OF step False] obtain s where
      s: "s \<in> set R" "sn_Generation s = g"
        "\<forall>s'\<in>set R. sn_Generation s' = g \<longrightarrow> sn_Index s \<le> sn_Index s'" and
      sn: "\<And>n i x. ParseSnapshotPath n = Some (i, x) \<Longrightarrow>
             (if i < sn_Index s then Stat fb (SnapshotDir r g @ [n]) = Inl ErrNotExist
              else Stat fb (SnapshotDir r g @ [n]) = Stat fa (SnapshotDir r g @ [n]))" and
      wl: "\<And>n i off x. ParseWALPath n = Some (i, off, x) \<Longrightarrow>
             (if i < sn_Index s then Stat fb (WALDir r g @ [n]) = Inl ErrNotExist
              else Stat fb (WALDir r g @ [n]) = Stat fa (WALDir r g @ [n]))"
      by blast
    have "\<exists>s\<in>set R. sn_Generation s = g
               \<and> (\<forall>s'\<in>set R. sn_Generation s' = g \<longrightarrow> sn_Index s \<le> sn_Index s')
               \<and> (\<forall>n i x. ParseSnapshotPath n = Some (i, x) \<longrightarrow>
                     (if i < sn_Index s
                      then Stat fs' (SnapshotDir r g @ [n]) = Inl ErrNotExist
                      else Stat fs' (SnapshotDir r g @ [n]) = Stat fs1 (SnapshotDir r g @ [n])))
               \<and> (\<forall>n i off x. ParseWALPath n = Some (i, off, x) \<longrightarrow>
                     (if i < sn_Index s
                      then Stat fs' (WALDir r g @ [n]) = Inl ErrNotExist
                      else Stat fs' (WALDir r g @ [n]) = Stat fs1 (WALDir r g @ [n])))"
    proof (intro bexI [of _ s] conjI allI impI)
      show "sn_Generation s = g" by (rule s(2))
      show "\<forall>s'\<in>set R. sn_Generation s' = g \<longrightarrow> sn_Index s \<le> sn_Index s'" by (rule s(3))
      show "s \<in> set R" by (rule s(1))
    next
      fix n i x assume "ParseSnapshotPath n = Some (i, x)"
      from sn [OF this] a1 [OF SnapshotDir_under, of n] a2 [OF SnapshotDir_under, of n]
      show "if i < sn_Index s
            then Stat fs' (SnapshotDir r g @ [n]) = Inl ErrNotExist
            else Stat fs' (SnapshotDir r g @ [n]) = Stat fs1 (SnapshotDir r g @ [n])"
        by simp
    next
      fix n i off x assume "ParseWALPath n = Some (i, off, x)"
      from wl [OF this] a1 [OF WALDir_under, of n] a2 [OF WALDir_under, of n]
      show "if i < sn_Index s
            then Stat fs' (WALDir r g @ [n]) = Inl ErrNotExist
            else Stat fs' (WALDir r g @ [n]) = Stat fs1 (WALDir r g @ [n])"
        by simp
    qed
    then show ?thesis unfolding if_not_P [OF False] .
  qed
  from retained_Generations [OF ret old gens] R main show ?thesis by (intro conjI)
qed

theorem EnforceRetention_prunes_witness:
  "EnforceRetention ex_env ex_r ex_fs_retention = (None, ex_fs_retained)
   \<and> Generations ex_env ex_r ex_fs_retention = Inr [''g0'', ''g1'']
   \<and> Stat ex_fs_retained (GenerationDir ex_r ''g0'') = Inl ErrNotExist
   \<and> Stat ex_fs_retained (SnapshotDir ex_r ''g1'' @ [''0000000000000001.snapshot.gz''])
       = Inl ErrNotExist
   \<and> Stat ex_fs_retained (SnapshotDir ex_r ''g1'' @ [''0000000000000002.snapshot.gz''])
       = Inr (File [31, 139, 2] 9000)
   \<and> Stat ex_fs_retained (WALDir ex_r ''g1'' @ [''0000000000000001.wal.gz''])
       = Inl ErrNotExist
   \<and> Stat ex_fs_retained (WALDir ex_r ''g1'' @ [''0000000000000002.wal''])
       = Inr (File [6] 9500)"
proof -
  let ?p = "\<lparr>Generation = ''g1'', Index = 1, Offset = 0\<rparr>"
  let ?s = "\<lparr>sn_Name = ''0000000000000002.snapshot.gz'', sn_Replica = ''file'',
             sn_Generation = ''g1'', sn_Index = 2, sn_Size = 3, sn_CreatedAt = 9000\<rparr>"
  let ?infos = "[\<lparr>sn_Name = ''0000000000000001.snapshot.gz'', sn_Replica = ''file'',
                  sn_Generation = ''g0'', sn_Index = 1, sn_Size = 3, sn_CreatedAt = 100\<rparr>,
                \<lparr>sn_Name = ''0000000000000001.snapshot.gz'', sn_Replica = ''file'',
                  sn_Generation = ''g1'', sn_Index = 1, sn_Size = 3, sn_CreatedAt = 200\<rparr>,
                ?s]"
  have gens: "Generations ex_env ex_r ex_fs_retention = Inr [''g0'', ''g1'']"
    by (simp add: Generations_def ex_fs_retention_def ex_eval fs_eval)
  have infos: "Snapshots ex_env ex_r ex_fs_retention = Inr ?infos"
    by (simp add: Snapshots_def gens)
      (simp add: ex_fs_retention_def ex_eval fs_eval parse_eval snapshot_infos_def
        Name_of_def Type_def)
  have pos: "db_Pos ex_env = Inr ?p"
    by (simp add: ex_env_def)
  have ret: "retained ex_env ex_r ex_fs_retention ?p ?infos = (None, [?s], ex_fs_retention)"
    by (simp add: retained_def FilterSnapshotsAfter_def ex_eval)
  let ?f1 = "[([''backup''], Dir 0 1), ([''backup'', ''generations''], Dir 0 1),
      ([''backup'', ''generations'', ''g1''], Dir 0 1),
      ([''backup'', ''generations'', ''g1'', ''snapshots''], Dir 0 1),
      ([''backup'', ''generations'', ''g1'', ''wal''], Dir 0 1),
      ([''backup'', ''generations'', ''g1'', ''snapshots'', ''0000000000000001.snapshot.gz''],
       File [31, 139, 1] 200),
      ([''backup'', ''generations'', ''g1'', ''snapshots'', ''0000000000000002.snapshot.gz''],
       File [31, 139, 2] 9000),
      ([''backup'', ''generations'', ''g1'', ''wal'', ''0000000000000001.wal.gz''],
       File [31, 139, 5] 300),
      ([''backup'', ''generations'', ''g1'', ''wal'', ''0000000000000002.wal''],
       File [6] 9500)]"
  let ?f2 = "[([''backup''], Dir 0 1), ([''backup'', ''generations''], Dir 0 1),
      ([''backup'', ''generations'', ''g1''], Dir 0 1),
      ([''backup'', ''generations'', ''g1'', ''snapshots''], Dir 0 1),
      ([''backup'', ''generations'', ''g1'', ''wal''], Dir 0 1),
      ([''backup'', ''generations'', ''g1'', ''snapshots'', ''0000000000000002.snapshot.gz''],
       File [31, 139, 2] 9000),
      ([''backup'', ''generations'', ''g1'', ''wal'', ''0000000000000001.wal.gz''],
       File [31, 139, 5] 300),
      ([''backup'', ''generations'', ''g1'', ''wal'', ''0000000000000002.wal''],
       File [6] 9500)]"
  have fm0: "FindMinSnapshotByGeneration [?s] ''g0'' = None"
    by (simp add: FindMinSnapshotByGeneration_def)
  have fm1: "FindMinSnapshotByGeneration [?s] ''g1'' = Some ?s"
    by (simp add: FindMinSnapshotByGeneration_def)
  have ra: "RemoveAll ex_fs_retention (GenerationDir ex_r ''g0'') = Inr ?f1"
    by (simp add: ex_fs_retention_def ex_eval fs_eval)
  have ds: "deleteGenerationSnapshotsBefore ex_r ?f1 ''g1'' 2 = (None, ?f2)"
    by (simp add: deleteGenerationSnapshotsBefore_def ex_eval fs_eval parse_eval)
  have dw: "deleteGenerationWALBefore ex_r ?f2 ''g1'' 2 = (None, ex_fs_retained)"
    by (simp add: deleteGenerationWALBefore_def ex_fs_retained_def ex_eval fs_eval parse_eval)
  have loop: "retention_loop ex_r [?s] ex_fs_retention [''g0'', ''g1''] = (None, ex_fs_retained)"
    by (simp only: retention_loop.simps fm0 fm1 ra ds dw option.case sum.case prod.case
        SnapshotInfo.select_convs)
  have nz: "\<not> Pos_IsZero ?p"
    by (simp add: Pos_IsZero_def zero_Pos_def)
  have run: "EnforceRetention ex_env ex_r ex_fs_retention = (None, ex_fs_retained)"
    by (simp only: EnforceRetention_def pos sum.case nz if_False infos ret prod.case
        option.case gens loop)
  note t0 = EnforceRetention_prunes [OF run pos infos ret gens gens, of "''g0''"]
  note t1 = EnforceRetention_prunes [OF run pos infos ret gens gens, of "''g1''"]
  from t0 have g0: "Stat ex_fs_retained (GenerationDir ex_r ''g0'') = Inl ErrNotExist"
    by simp
  from t1 have
    s: "\<forall>n i x. ParseSnapshotPath n = Some (i, x) \<longrightarrow>
          (if i < 2 then Stat ex_fs_retained (SnapshotDir ex_r ''g1'' @ [n]) = Inl ErrNotExist
           else Stat ex_fs_retained (SnapshotDir ex_r ''g1'' @ [n])
                  = Stat ex_fs_retention (SnapshotDir ex_r ''g1'' @ [n]))" and
    w: "\<forall>n i off x. ParseWALPath n = Some (i, off, x) \<longrightarrow>
          (if i < 2 then Stat ex_fs_retained (WALDir ex_r ''g1'' @ [n]) = Inl ErrNotExist
           else Stat ex_fs_retained (WALDir ex_r ''g1'' @ [n])
                  = Stat ex_fs_retention (WALDir ex_r ''g1'' @ [n]))"
    by simp_all
  have k1: "Stat ex_fs_retention (SnapshotDir ex_r ''g1'' @ [''0000000000000002.snapshot.gz''])
              = Inr (File [31, 139, 2] 9000)"
    and k2: "Stat ex_fs_retention (WALDir ex_r ''g1'' @ [''0000000000000002.wal''])
              = Inr (File [6] 9500)"
    by (simp_all add: ex_fs_retention_def ex_eval fs_eval)
  from s [rule_format, OF Parse_snapshot_1] s [rule_format, OF Parse_snapshot_2]
    w [rule_format, OF Parse_wal_gz_1] w [rule_format, OF Parse_wal_2] k1 k2 g0 run gens
  show ?thesis by simp
qed

end
